theory Spec2Isabelle
  imports Complex_Main "HOL-Library.Word"
begin

unbundle bit_operations_syntax

section \<open>Data model of BluetoothLedStrip.ts\<close>

text \<open>
  A TypeScript \<open>number\<close> is a double.  It is modelled as the real number it denotes;
  NaN and the infinities are left out.  Where the class computes with fractions, in
  \<open>rgb2hsv\<close>, every arithmetic result is rounded to the nearest double (\<open>fl\<close> below).
  The elements of a \<open>Uint8Array\<close> are 8-bit words.  The send counter only ever changes
  by \<open>this.counter++\<close>, so it is an integer; the sum \<open>lastMode + 128\<close> is taken
  exactly, as it is in doubles for every integer mode.
\<close>

type_synonym number = real
type_synonym byte = "8 word"

datatype Method = RGB | SWITCH | MODE | BRIGHTNESS | SPEED

fun Method_code :: "Method \<Rightarrow> number" where
  "Method_code RGB = 0x03"
| "Method_code SWITCH = 0x04"
| "Method_code MODE = 0x07"
| "Method_code BRIGHTNESS = 0x08"
| "Method_code SPEED = 0x09"

datatype DeviceType = UNKNOWN | MAGIC_STRIP | LED_NET_WF | KEEP_SMILE

definition guidServiceMagicStrip :: string where
  "guidServiceMagicStrip = ''0000fff0-0000-1000-8000-00805f9b34fb''"
definition guidCharacteristicMagicStrip :: string where
  "guidCharacteristicMagicStrip = ''0000fff1-0000-1000-8000-00805f9b34fb''"
definition guidServiceLedNetWf :: string where
  "guidServiceLedNetWf = ''0000ffff-0000-1000-8000-00805f9b34fb''"
definition guidCharacteristicLedNetWf :: string where
  "guidCharacteristicLedNetWf = ''0000ff01-0000-1000-8000-00805f9b34fb''"
definition guidServiceKeepsmile :: string where
  "guidServiceKeepsmile = ''0000afd0-0000-1000-8000-00805f9b34fb''"
definition guidCharacteristicKeepsmile :: string where
  "guidCharacteristicKeepsmile = ''0000afd1-0000-1000-8000-00805f9b34fb''"

text \<open>
  Objects of the platform Bluetooth stack are opaque: the selected device is known by its
  name, services and characteristics by a handle, an exception by its message, and a
  callback by an identifier.  \<open>None\<close> stands for \<open>undefined\<close>.
\<close>

type_synonym bt_device = string
type_synonym service = nat
type_synonym handle = nat
type_synonym exception = string
type_synonym callback = nat

record Device =
  deviceType :: DeviceType
  counter :: int
  lastMode :: number
  lastBrightness :: number
  lastSpeed :: number
  characteristic :: "handle option"
  onError :: "callback option"
  onConnect :: "callback option"
  onDisconnect :: "callback option"

text \<open>The field initialisers of \<open>class Device\<close>.\<close>

definition new_Device :: Device where
  "new_Device =
     \<lparr> deviceType = UNKNOWN, counter = 0, lastMode = 1, lastBrightness = 100,
       lastSpeed = 100, characteristic = None, onError = None, onConnect = None,
       onDisconnect = None \<rparr>"

text \<open>
  Everything the class does to the outside world is recorded as an event, in the order
  in which it happens: the two GATT lookups, the write to the characteristic and the
  calls of the registered callbacks.  Console output is not recorded.
\<close>

datatype event =
    GetPrimaryService string
  | GetCharacteristic service string
  | WriteValueWithoutResponse handle "byte list"
  | OnConnect callback bt_device
  | OnDisconnect callback bt_device
  | OnError callback exception

text \<open>
  The transport, as far as \<open>connect\<close> consults it: \<open>requestDevice\<close>,
  \<open>device.gatt.connect\<close>, \<open>server.getPrimaryService\<close> and
  \<open>service.getCharacteristic\<close>.  A rejected promise is \<open>Inl\<close> of the exception.
\<close>

record transport =
  requestDevice :: "exception + bt_device option"
  gattConnect :: "exception + unit"
  getPrimaryService :: "string \<Rightarrow> exception + service"
  getCharacteristic :: "service \<Rightarrow> string \<Rightarrow> exception + handle"

section \<open>Number conversions\<close>

text \<open>
  Storing a number into a \<open>Uint8Array\<close> truncates it towards zero and keeps the low
  eight bits.  The operators \<open>>>\<close> and \<open>&\<close> first convert their operand to a signed
  32-bit integer.
\<close>

definition ToUint8 :: "number \<Rightarrow> byte" where
  "ToUint8 x = word_of_int (if x < 0 then \<lceil>x\<rceil> else \<lfloor>x\<rfloor>)"

definition ToInt32 :: "int \<Rightarrow> int" where
  "ToInt32 n = signed_take_bit 31 n"

section \<open>Sending\<close>

text \<open>
  Each send function returns at once when no characteristic is bound.  Otherwise it
  issues one \<open>writeValueWithoutResponse\<close>, recorded as an event with the bytes handed
  over; the class does not look at the outcome of the returned promise.
\<close>

definition sendMagicStrip :: "Method \<Rightarrow> byte list \<Rightarrow> Device \<Rightarrow> Device \<times> event list" where
  "sendMagicStrip method data d =
     (case characteristic d of
        None \<Rightarrow> (d, [])
      | Some ch \<Rightarrow> (d, [WriteValueWithoutResponse ch (ToUint8 (Method_code method) # data)]))"

definition sendLedNetWf :: "number list \<Rightarrow> byte list \<Rightarrow> Device \<Rightarrow> Device \<times> event list" where
  "sendLedNetWf magic data d =
     (case characteristic d of
        None \<Rightarrow> (d, [])
      | Some ch \<Rightarrow>
          (let checksum = 0;
               d' = d\<lparr>counter := counter d + 1\<rparr>;
               len = length magic + length data;
               packet =
                 [ToUint8 (of_int ((drop_bit 8 (ToInt32 (counter d'))) AND 0xFF)),
                  ToUint8 (of_int (ToInt32 (counter d') AND 0xFF))]
                 @ map ToUint8 [0x80, 0x00, 0x00]
                 @ [ToUint8 (of_nat len), ToUint8 (of_nat (len + 1))]
                 @ map ToUint8 magic
                 @ data
                 @ [ToUint8 checksum]
           in (d', [WriteValueWithoutResponse ch packet])))"

definition sendKeepsmile :: "byte list \<Rightarrow> Device \<Rightarrow> Device \<times> event list" where
  "sendKeepsmile data d =
     (case characteristic d of
        None \<Rightarrow> (d, [])
      | Some ch \<Rightarrow> (d, [WriteValueWithoutResponse ch data]))"

section \<open>Double arithmetic\<close>

text \<open>
  The result of \<open>+\<close>, \<open>-\<close>, \<open>*\<close> and \<open>/\<close> on doubles is the exact result rounded to
  the nearest double, ties to the even significand (IEEE 754 binary64).  For \<open>x\<close> in
  the binade from \<open>2 ^ e\<close> (included) to \<open>2 ^ (e + 1)\<close> (excluded) the doubles are the
  multiples of \<open>2 ^ (e - 52)\<close>; below the smallest normal number \<open>2 ^ -1022\<close> they are
  the multiples of \<open>2 ^ -1074\<close>.  Overflow to infinity is left out.

  \<open>pow2_floor n x\<close> is the largest power of two up to \<open>x\<close>, found by halving or doubling
  \<open>x\<close> at most \<open>n\<close> times; 1100 steps cover every double.
\<close>

fun pow2_floor :: "nat \<Rightarrow> real \<Rightarrow> real" where
  "pow2_floor 0 x = 1"
| "pow2_floor (Suc n) x =
     (if 2 \<le> x then 2 * pow2_floor n (x / 2)
      else if x < 1 then pow2_floor n (2 * x) / 2
      else 1)"

definition binade :: "real \<Rightarrow> real" where
  "binade x = max (pow2_floor 1100 \<bar>x\<bar>) (1 / 2 ^ 1022)"

definition ulp :: "real \<Rightarrow> real" where
  "ulp x = binade x / 2 ^ 52"

definition round_half_even :: "real \<Rightarrow> int" where
  "round_half_even x =
     (let f = \<lfloor>x\<rfloor>; d = x - of_int f
      in if d < 1 / 2 then f else if 1 / 2 < d then f + 1 else if even f then f else f + 1)"

definition fl :: "real \<Rightarrow> number" where
  "fl x = ulp x * of_int (round_half_even (x / ulp x))"

section \<open>Colour conversion\<close>

text \<open>
  \<open>c && e\<close> is \<open>c\<close> when \<open>c\<close> is zero and \<open>e\<close> otherwise; likewise \<open>v && c / v\<close>.
  \<open>Math.max\<close>, \<open>Math.min\<close> and the comparisons are exact; each of the other operations
  rounds.  The result array \<open>[hue / 2, saturation, value]\<close> is a list of three numbers.
\<close>

definition rgb2hsv :: "number \<Rightarrow> number \<Rightarrow> number \<Rightarrow> number list" where
  "rgb2hsv red0 green0 blue0 =
     (let red = fl (red0 / 255);
          green = fl (green0 / 255);
          blue = fl (blue0 / 255);
          v = max red (max green blue);
          c = fl (v - min red (min green blue));
          h = (if c = 0 then c
               else if v = green then fl (fl (red - blue) / c)
               else if v = red then fl (2 + fl (fl (blue - green) / c))
               else fl (4 + fl (fl (green - red) / c)))
      in [fl (fl (60 * (if h < 0 then fl (h + 6) else h)) / 2),
          fl ((if v = 0 then v else fl (c / v)) * 100),
          fl (v * 100)])"

section \<open>Commands\<close>

definition setRGB :: "number \<Rightarrow> number \<Rightarrow> number \<Rightarrow> Device \<Rightarrow> Device \<times> event list" where
  "setRGB red green blue d =
     (if deviceType d = MAGIC_STRIP then
        sendMagicStrip RGB (map ToUint8 [red, green, blue]) d
      else if deviceType d = LED_NET_WF then
        (let hsv = rgb2hsv red green blue
         in sendLedNetWf [0x0B, 0x3B]
              (ToUint8 0xA1 # map ToUint8 hsv @ replicate 7 0) d)
      else if deviceType d = KEEP_SMILE then
        sendKeepsmile
          (map ToUint8 [0x5A, 0x00, 0x01, red, green, blue, 0x00, lastBrightness d, 0x00, 0xA5]) d
      else (d, []))"

definition setSwitch :: "number \<Rightarrow> Device \<Rightarrow> Device \<times> event list" where
  "setSwitch switchBoolean d =
     (if deviceType d = MAGIC_STRIP then
        sendMagicStrip SWITCH (map ToUint8 [switchBoolean]) d
      else if deviceType d = LED_NET_WF then
        sendLedNetWf [0x0B, 0x3B]
          (ToUint8 (if switchBoolean > 0 then 0x23 else 0x24) # replicate 10 0) d
      else if deviceType d = KEEP_SMILE then
        sendKeepsmile
          (map ToUint8 [0x5B, (if switchBoolean > 0 then 0xF0 else 0x0F), 0x00, 0xB5]) d
      else (d, []))"

text \<open>
  The three setters below end in the same two branches: the combined packet of LEDnetWF
  and the combined packet of Keepsmile, both built from the cached fields.
\<close>

definition setMode :: "number \<Rightarrow> Device \<Rightarrow> Device \<times> event list" where
  "setMode mode d0 =
     (let d = d0\<lparr>lastMode := mode\<rparr> in
      if deviceType d = MAGIC_STRIP then
        sendMagicStrip MODE (map ToUint8 [mode]) d
      else if deviceType d = LED_NET_WF then
        sendLedNetWf [0x0B, 0x38] (map ToUint8 [lastMode d, lastSpeed d, lastBrightness d]) d
      else if deviceType d = KEEP_SMILE then
        sendKeepsmile
          (map ToUint8 [0x5C, 0x00, lastMode d + 128, lastSpeed d, lastBrightness d, 0x00, 0xC5]) d
      else (d, []))"

definition setBrightness :: "number \<Rightarrow> Device \<Rightarrow> Device \<times> event list" where
  "setBrightness brightness d0 =
     (let d = d0\<lparr>lastBrightness := brightness\<rparr> in
      if deviceType d = MAGIC_STRIP then
        sendMagicStrip BRIGHTNESS (map ToUint8 [brightness]) d
      else if deviceType d = LED_NET_WF then
        sendLedNetWf [0x0B, 0x38] (map ToUint8 [lastMode d, lastSpeed d, lastBrightness d]) d
      else if deviceType d = KEEP_SMILE then
        sendKeepsmile
          (map ToUint8 [0x5C, 0x00, lastMode d + 128, lastSpeed d, lastBrightness d, 0x00, 0xC5]) d
      else (d, []))"

definition setSpeed :: "number \<Rightarrow> Device \<Rightarrow> Device \<times> event list" where
  "setSpeed speed d0 =
     (let d = d0\<lparr>lastSpeed := speed\<rparr> in
      if deviceType d = MAGIC_STRIP then
        sendMagicStrip SPEED (map ToUint8 [speed]) d
      else if deviceType d = LED_NET_WF then
        sendLedNetWf [0x0B, 0x38] (map ToUint8 [lastMode d, lastSpeed d, lastBrightness d]) d
      else if deviceType d = KEEP_SMILE then
        sendKeepsmile
          (map ToUint8 [0x5C, 0x00, lastMode d + 128, lastSpeed d, lastBrightness d, 0x00, 0xC5]) d
      else (d, []))"

section \<open>Connecting\<close>

text \<open>
  One candidate of the negotiation: look the primary service up, store the device type,
  look the characteristic up and store it.  The result says whether the block threw.
  \<open>connect\<close> nests three such blocks, each in the \<open>catch\<close> of the one before.
\<close>

definition probe ::
  "transport \<Rightarrow> string \<Rightarrow> string \<Rightarrow> DeviceType \<Rightarrow> Device \<Rightarrow> exception option \<times> Device \<times> event list"
where
  "probe t guidService guidCharacteristic ty d =
     (case getPrimaryService t guidService of
        Inl exc \<Rightarrow> (Some exc, d, [GetPrimaryService guidService])
      | Inr srv \<Rightarrow>
          (let d' = d\<lparr>deviceType := ty\<rparr> in
           case getCharacteristic t srv guidCharacteristic of
             Inl exc \<Rightarrow>
               (Some exc, d',
                [GetPrimaryService guidService, GetCharacteristic srv guidCharacteristic])
           | Inr ch \<Rightarrow>
               (None, d'\<lparr>characteristic := Some ch\<rparr>,
                [GetPrimaryService guidService, GetCharacteristic srv guidCharacteristic])))"

definition negotiate :: "transport \<Rightarrow> Device \<Rightarrow> exception option \<times> Device \<times> event list" where
  "negotiate t d =
     (case probe t guidServiceMagicStrip guidCharacteristicMagicStrip MAGIC_STRIP d of
        (None, d1, ev1) \<Rightarrow> (None, d1, ev1)
      | (Some _, d1, ev1) \<Rightarrow>
          (case probe t guidServiceLedNetWf guidCharacteristicLedNetWf LED_NET_WF d1 of
             (None, d2, ev2) \<Rightarrow> (None, d2, ev1 @ ev2)
           | (Some _, d2, ev2) \<Rightarrow>
               (case probe t guidServiceKeepsmile guidCharacteristicKeepsmile KEEP_SMILE d2 of
                  (r, d3, ev3) \<Rightarrow> (r, d3, ev1 @ ev2 @ ev3))))"

text \<open>The outer \<open>catch\<close> of \<open>connect\<close>.\<close>

definition connect_failed :: "exception \<Rightarrow> Device \<Rightarrow> event list \<Rightarrow> Device \<times> event list" where
  "connect_failed exc d evs =
     (case onError d of
        None \<Rightarrow> (d, evs)
      | Some cb \<Rightarrow> (d, evs @ [OnError cb exc]))"

text \<open>
  When \<open>requestDevice\<close> yields \<open>undefined\<close>, every optional call \<open>device?.\<close>,
  \<open>server?.\<close>, \<open>service?.\<close> yields \<open>undefined\<close> without a lookup: the first block
  runs through, stores \<open>MAGIC_STRIP\<close> and an undefined characteristic, and no callback
  is called.
\<close>

definition connect ::
  "transport \<Rightarrow> callback option \<Rightarrow> callback option \<Rightarrow> callback option \<Rightarrow> Device
     \<Rightarrow> Device \<times> event list"
where
  "connect t onConnect' onDisconnect' onError' d0 =
     (let d = d0\<lparr>onConnect := onConnect', onDisconnect := onDisconnect', onError := onError'\<rparr> in
      case requestDevice t of
        Inl exc \<Rightarrow> connect_failed exc d []
      | Inr None \<Rightarrow> (d\<lparr>deviceType := MAGIC_STRIP, characteristic := None\<rparr>, [])
      | Inr (Some device) \<Rightarrow>
          (case gattConnect t of
             Inl exc \<Rightarrow> connect_failed exc d []
           | Inr _ \<Rightarrow>
               (case negotiate t d of
                  (Some exc, d', evs) \<Rightarrow> connect_failed exc d' evs
                | (None, d', evs) \<Rightarrow>
                    (case onConnect d' of
                       None \<Rightarrow> (d', evs)
                     | Some cb \<Rightarrow> (d', evs @ [OnConnect cb device])))))"

text \<open>The handler of the \<open>gattserverdisconnected\<close> event.\<close>

definition onDisconnected :: "bt_device option \<Rightarrow> Device \<Rightarrow> event list" where
  "onDisconnected target d =
     (case target of
        None \<Rightarrow> []
      | Some device \<Rightarrow>
          (case onDisconnect d of None \<Rightarrow> [] | Some cb \<Rightarrow> [OnDisconnect cb device]))"

section \<open>Sequences of commands\<close>

datatype command =
    SetRGB number number number
  | SetSwitch number
  | SetMode number
  | SetBrightness number
  | SetSpeed number

fun exec :: "command \<Rightarrow> Device \<Rightarrow> Device \<times> event list" where
  "exec (SetRGB r g b) d = setRGB r g b d"
| "exec (SetSwitch s) d = setSwitch s d"
| "exec (SetMode m) d = setMode m d"
| "exec (SetBrightness b) d = setBrightness b d"
| "exec (SetSpeed s) d = setSpeed s d"

fun run :: "command list \<Rightarrow> Device \<Rightarrow> Device \<times> event list" where
  "run [] d = (d, [])"
| "run (c # cs) d =
     (case exec c d of (d', evs) \<Rightarrow> (case run cs d' of (d'', evs') \<Rightarrow> (d'', evs @ evs')))"

text \<open>The packets written, in order.\<close>

fun packets :: "event list \<Rightarrow> byte list list" where
  "packets [] = []"
| "packets (WriteValueWithoutResponse ch p # evs) = p # packets evs"
| "packets (_ # evs) = packets evs"

section \<open>Reading a packet\<close>

text \<open>
  \<open>_calculateChecksum\<close> of dist/BluetoothLedStrip.js, the other LEDnetWF encoder of the
  repository: the bytes at the indices 9 up to the last but one are added up and the sum
  is cut to eight bits.
\<close>

definition calculateChecksum :: "byte list \<Rightarrow> nat" where
  "calculateChecksum packet =
     (sum_list (map (\<lambda>i. unat (packet ! i)) [9..<length packet - 1])) mod 256"

text \<open>The two leading bytes of a packet, read as one big-endian number.\<close>

definition counter_field :: "byte list \<Rightarrow> nat" where
  "counter_field packet = 256 * unat (packet ! 0) + unat (packet ! 1)"

text \<open>
  The LEDnetWF frame in the words of the specification: the two-byte big-endian counter,
  the marker \<open>0x80, 0x00, 0x00\<close>, the length of selector plus payload, that length plus
  one, the selector, the payload, and one trailing checksum byte.
\<close>

definition FamilyB_frame :: "int \<Rightarrow> byte list \<Rightarrow> byte list \<Rightarrow> byte \<Rightarrow> byte list" where
  "FamilyB_frame cnt selector payload chk =
     [word_of_int (cnt div 256 mod 256), word_of_int (cnt mod 256)]
     @ [0x80, 0x00, 0x00]
     @ [of_nat (length (selector @ payload)), of_nat (length (selector @ payload) + 1)]
     @ selector @ payload @ [chk]"

section \<open>Transports and traces for stating the negotiation\<close>

text \<open>
  A fake transport: the device is found, the GATT server connects, and the two lookups
  succeed exactly for the listed services and characteristics.
\<close>

definition fake_transport ::
  "(string \<times> service) list \<Rightarrow> ((service \<times> string) \<times> handle) list \<Rightarrow> transport" where
  "fake_transport services characteristics =
     \<lparr> requestDevice = Inr (Some ''LED''),
       gattConnect = Inr (),
       getPrimaryService =
         (\<lambda>guid. case map_of services guid of
                    None \<Rightarrow> Inl ''NotFoundError'' | Some srv \<Rightarrow> Inr srv),
       getCharacteristic =
         (\<lambda>srv guid. case map_of characteristics (srv, guid) of
                    None \<Rightarrow> Inl ''NotFoundError'' | Some ch \<Rightarrow> Inr ch) \<rparr>"

text \<open>
  A candidate resolves when its primary-service lookup and then its characteristic
  lookup both succeed; otherwise the result is the exception of the lookup that failed.
\<close>

definition resolves :: "transport \<Rightarrow> string \<Rightarrow> string \<Rightarrow> exception + handle" where
  "resolves t guidService guidCharacteristic =
     (case getPrimaryService t guidService of
        Inl exc \<Rightarrow> Inl exc
      | Inr srv \<Rightarrow> getCharacteristic t srv guidCharacteristic)"

text \<open>
  The service GUIDs looked up, in order, and the callbacks called, in order.
\<close>

fun lookups :: "event list \<Rightarrow> string list" where
  "lookups [] = []"
| "lookups (GetPrimaryService guid # evs) = guid # lookups evs"
| "lookups (_ # evs) = lookups evs"

fun callbacks :: "event list \<Rightarrow> event list" where
  "callbacks [] = []"
| "callbacks (OnConnect cb dev # evs) = OnConnect cb dev # callbacks evs"
| "callbacks (OnDisconnect cb dev # evs) = OnDisconnect cb dev # callbacks evs"
| "callbacks (OnError cb exc # evs) = OnError cb exc # callbacks evs"
| "callbacks (_ # evs) = callbacks evs"

section \<open>Auxiliary facts\<close>

lemma ToUint8_of_int: "ToUint8 (of_int k) = word_of_int k"
  by (simp add: ToUint8_def)

lemma ToUint8_of_nat: "ToUint8 (of_nat n) = of_nat n"
  by (simp add: ToUint8_def)

lemma ToUint8_numeral: "ToUint8 (numeral n) = numeral n"
  by (simp add: ToUint8_def)

lemma ToUint8_0: "ToUint8 0 = 0"
  by (simp add: ToUint8_def)

lemma ToUint8_1: "ToUint8 1 = 1"
  by (simp add: ToUint8_def)

lemmas ToUint8_simps = ToUint8_of_int ToUint8_of_nat ToUint8_numeral ToUint8_0 ToUint8_1

lemma replicate_7: "replicate 7 x = [x, x, x, x, x, x, x]"
  by (simp add: numeral_eq_Suc)

lemma replicate_10: "replicate 10 x = [x, x, x, x, x, x, x, x, x, x]"
  by (simp add: numeral_eq_Suc)

lemma and_255: "(k::int) AND 0xFF = k mod 256"
  using take_bit_eq_mask [of 8 k] by (simp add: take_bit_eq_mod mask_eq_exp_minus_1)

lemma ToInt32_low: "ToInt32 c AND 0xFF = c mod 256"
proof -
  have "take_bit 8 (signed_take_bit 31 c) = take_bit 8 c"
    by (rule bit_eqI) (auto simp: bit_simps)
  then show ?thesis by (simp add: ToInt32_def and_255 take_bit_eq_mod)
qed

lemma ToInt32_high: "drop_bit 8 (ToInt32 c) AND 0xFF = (c div 256) mod 256"
proof -
  have "take_bit 8 (drop_bit 8 (signed_take_bit 31 c)) = take_bit 8 (drop_bit 8 c)"
    by (rule bit_eqI) (auto simp: bit_simps)
  then show ?thesis by (simp add: ToInt32_def and_255 take_bit_eq_mod drop_bit_eq_div)
qed

subsection \<open>Rounding to the nearest double is monotone and odd\<close>

lemma pow2_floor_numeral:
  "pow2_floor (numeral k) x =
     (if 2 \<le> x then 2 * pow2_floor (pred_numeral k) (x / 2)
      else if x < 1 then pow2_floor (pred_numeral k) (2 * x) / 2
      else 1)"
  by (simp add: numeral_eq_Suc)

lemma pow2_floor_pos: "0 < pow2_floor n x"
  by (induction n arbitrary: x) simp_all

lemma pow2_floor_le1: "x < 2 \<Longrightarrow> pow2_floor n x \<le> 1"
proof (induction n arbitrary: x)
  case 0
  then show ?case by simp
next
  case (Suc n)
  show ?case
  proof (cases "x < 1")
    case True
    then have "pow2_floor n (2 * x) \<le> 1" by (intro Suc.IH) simp
    with True Suc.prems show ?thesis by simp
  next
    case False
    with Suc.prems show ?thesis by simp
  qed
qed

lemma pow2_floor_ge1: "1 \<le> x \<Longrightarrow> 1 \<le> pow2_floor n x"
proof (induction n arbitrary: x)
  case 0
  then show ?case by simp
next
  case (Suc n)
  show ?case
  proof (cases "2 \<le> x")
    case True
    then have "1 \<le> pow2_floor n (x / 2)" by (intro Suc.IH) simp
    with True show ?thesis by simp
  next
    case False
    with Suc.prems show ?thesis by simp
  qed
qed

lemma pow2_floor_dyadic:
  "x \<le> y \<Longrightarrow> pow2_floor n x = pow2_floor n y \<or> 2 * pow2_floor n x \<le> pow2_floor n y"
proof (induction n arbitrary: x y)
  case 0
  then show ?case by simp
next
  case (Suc n)
  consider (hh) "2 \<le> x" | (ll) "y < 1" | (lh) "x < 1" "2 \<le> y"
    | (lm) "x < 1" "1 \<le> y" "y < 2" | (mh) "1 \<le> x" "x < 2" "2 \<le> y"
    | (mm) "1 \<le> x" "x < 2" "1 \<le> y" "y < 2"
    using Suc.prems by linarith
  then show ?case
  proof cases
    case hh
    with Suc.prems have "2 \<le> y" "x / 2 \<le> y / 2" by simp_all
    with Suc.IH [of "x / 2" "y / 2"] hh show ?thesis by auto
  next
    case ll
    with Suc.prems have "x < 1" "2 * x \<le> 2 * y" by simp_all
    with Suc.IH [of "2 * x" "2 * y"] ll show ?thesis by auto
  next
    case lh
    have "pow2_floor n (2 * x) \<le> 1" using lh by (intro pow2_floor_le1) simp
    moreover have "1 \<le> pow2_floor n (y / 2)" using lh by (intro pow2_floor_ge1) simp
    ultimately show ?thesis using lh by simp
  next
    case lm
    have "pow2_floor n (2 * x) \<le> 1" using lm by (intro pow2_floor_le1) simp
    then show ?thesis using lm by simp
  next
    case mh
    have "1 \<le> pow2_floor n (y / 2)" using mh by (intro pow2_floor_ge1) simp
    then show ?thesis using mh by simp
  next
    case mm
    then show ?thesis by simp
  qed
qed

lemma pow2_floor_upper: "pow2_floor n x \<le> 2 ^ n"
proof (induction n arbitrary: x)
  case 0
  then show ?case by simp
next
  case (Suc n)
  define p :: real where "p = 2 ^ n"
  have p: "1 \<le> p" by (simp add: p_def)
  have ih: "pow2_floor n (x / 2) \<le> p" "pow2_floor n (2 * x) \<le> p"
    unfolding p_def by (rule Suc.IH)+
  have "pow2_floor (Suc n) x \<le> 2 * p"
    using ih p by auto
  then show ?case by (simp add: p_def)
qed

lemma pow2_floor_lower: "1 / 2 ^ n \<le> pow2_floor n x"
proof (induction n arbitrary: x)
  case 0
  then show ?case by simp
next
  case (Suc n)
  define q :: real where "q = 1 / 2 ^ n"
  have q: "0 < q" "q \<le> 1" by (simp_all add: q_def)
  have ih: "q \<le> pow2_floor n (x / 2)" "q \<le> pow2_floor n (2 * x)"
    unfolding q_def by (rule Suc.IH)+
  have "q / 2 \<le> pow2_floor (Suc n) x"
    using ih q by auto
  then show ?case by (simp add: q_def)
qed

lemma pow2_floor_gt: "x < 2 * pow2_floor n x \<or> pow2_floor n x = 2 ^ n"
proof (induction n arbitrary: x)
  case 0
  then show ?case by simp
next
  case (Suc n)
  consider (h) "2 \<le> x" | (l) "x < 1" | (m) "1 \<le> x" "x < 2" by linarith
  then show ?case
  proof cases
    case h
    with Suc.IH [of "x / 2"] show ?thesis by auto
  next
    case l
    have "0 < pow2_floor n (2 * x)" by (rule pow2_floor_pos)
    moreover have "1 / 2 ^ n \<le> pow2_floor n (2 * x)" by (rule pow2_floor_lower)
    moreover have "pow2_floor n (2 * x) \<le> 1" using l by (intro pow2_floor_le1) simp
    ultimately show ?thesis
    proof (cases "2 * x < 2 * pow2_floor n (2 * x)")
      case True
      with l show ?thesis by simp
    next
      case False
      with Suc.IH [of "2 * x"] have e: "pow2_floor n (2 * x) = 2 ^ n" by simp
      have "(1::real) \<le> 2 ^ n" by simp
      with \<open>pow2_floor n (2 * x) \<le> 1\<close> have "pow2_floor n (2 * x) = 1"
        unfolding e by (rule antisym)
      with l show ?thesis by simp
    qed
  next
    case m
    then show ?thesis by simp
  qed
qed

lemma pow2_floor_le: "pow2_floor n x \<le> x \<or> pow2_floor n x = 1 / 2 ^ n"
proof (induction n arbitrary: x)
  case 0
  then show ?case by simp
next
  case (Suc n)
  consider (h) "2 \<le> x" | (l) "x < 1" | (m) "1 \<le> x" "x < 2" by linarith
  then show ?case
  proof cases
    case h
    have "1 \<le> pow2_floor n (x / 2)" using h by (intro pow2_floor_ge1) simp
    moreover have "pow2_floor n (x / 2) \<le> 2 ^ n" by (rule pow2_floor_upper)
    ultimately show ?thesis
    proof (cases "pow2_floor n (x / 2) \<le> x / 2")
      case True
      with h show ?thesis by simp
    next
      case False
      with Suc.IH [of "x / 2"] have e: "pow2_floor n (x / 2) = 1 / 2 ^ n" by simp
      have "(1::real) / 2 ^ n \<le> 1" by simp
      with \<open>1 \<le> pow2_floor n (x / 2)\<close> have "pow2_floor n (x / 2) = 1"
        unfolding e by (rule antisym [rotated])
      with h show ?thesis by simp
    qed
  next
    case l
    with Suc.IH [of "2 * x"] show ?thesis by auto
  next
    case m
    then show ?thesis by simp
  qed
qed

lemma round_half_even_of_int: "round_half_even (of_int k) = k"
  by (simp add: round_half_even_def)

lemma round_half_even_bounds: "\<lfloor>x\<rfloor> \<le> round_half_even x" "round_half_even x \<le> \<lfloor>x\<rfloor> + 1"
  by (simp_all add: round_half_even_def Let_def)

lemma round_half_even_mono:
  assumes "x \<le> y"
  shows "round_half_even x \<le> round_half_even y"
proof (cases "\<lfloor>x\<rfloor> = \<lfloor>y\<rfloor>")
  case True
  with assms show ?thesis
    by (auto simp: round_half_even_def Let_def)
next
  case False
  with assms have "\<lfloor>x\<rfloor> + 1 \<le> \<lfloor>y\<rfloor>"
    using floor_mono [of x y] by linarith
  with round_half_even_bounds(2) [of x] round_half_even_bounds(1) [of y]
  show ?thesis by linarith
qed

lemma round_half_even_minus: "round_half_even (- x) = - round_half_even x"
proof (cases "of_int \<lfloor>x\<rfloor> = x")
  case True
  then obtain k where "x = of_int k" by metis
  then show ?thesis
    using round_half_even_of_int [of k] round_half_even_of_int [of "- k"] by simp
next
  case False
  have "of_int \<lfloor>x\<rfloor> \<le> x" by simp
  with False have lt: "of_int \<lfloor>x\<rfloor> < x" by linarith
  have "x < of_int \<lfloor>x\<rfloor> + 1" by linarith
  with lt have f: "\<lfloor>- x\<rfloor> = - \<lfloor>x\<rfloor> - 1"
    by (simp add: floor_eq_iff; linarith)
  show ?thesis
    unfolding round_half_even_def Let_def f using lt by auto
qed

lemma binade_pos: "0 < binade x"
  using pow2_floor_pos [of 1100 "\<bar>x\<bar>"] by (simp add: binade_def max_def)

lemma ulp_pos: "0 < ulp x"
  using binade_pos [of x] by (simp add: ulp_def)

lemma ulp_minus: "ulp (- x) = ulp x"
  by (simp add: ulp_def binade_def)

lemma fl_minus: "fl (- x) = - fl x"
  by (simp add: fl_def ulp_minus round_half_even_minus)

lemma fl_nonneg:
  assumes "0 \<le> x"
  shows "0 \<le> fl x"
proof -
  have "0 \<le> x / ulp x" using assms ulp_pos [of x] by simp
  from round_half_even_mono [OF this] have "0 \<le> round_half_even (x / ulp x)"
    using round_half_even_of_int [of 0] by simp
  then show ?thesis using ulp_pos [of x] by (simp add: fl_def)
qed

lemma pow2_floor_inverse_power: "k \<le> n \<Longrightarrow> pow2_floor n (1 / 2 ^ k) = 1 / 2 ^ k"
proof (induction n arbitrary: k)
  case 0
  then show ?case by simp
next
  case (Suc n)
  show ?case
  proof (cases k)
    case 0
    then show ?thesis by simp
  next
    case (Suc j)
    then have j: "j \<le> n" using Suc.prems by simp
    define z :: real where "z = 1 / 2 ^ k"
    have "(1::real) < 2 ^ k" unfolding Suc
      by (rule one_less_power) simp_all
    then have lt: "z < 1" by (simp add: z_def)
    have dbl: "2 * z = 1 / 2 ^ j" by (simp add: z_def Suc)
    have "pow2_floor (Suc n) z = pow2_floor n (2 * z) / 2"
      using lt by simp
    also have "\<dots> = (1 / 2 ^ j) / 2"
      unfolding dbl Suc.IH [OF j] ..
    also have "\<dots> = z" by (simp add: z_def Suc)
    finally show ?thesis by (simp add: z_def)
  qed
qed

lemma binade_cases:
  assumes "0 \<le> x" "x \<le> y"
  shows "binade x = binade y \<or> (2 * binade x \<le> binade y \<and> x < 2 * binade x \<and> binade y \<le> y)"
proof -
  define px py m where "px = pow2_floor 1100 x" and "py = pow2_floor 1100 y"
    and "m = (1::real) / 2 ^ 1022"
  have bx: "binade x = max px m" and "binade y = max py m"
    using assms by (simp_all add: binade_def px_def py_def m_def)
  note by' = \<open>binade y = max py m\<close>
  have pos: "0 < px" by (simp add: px_def pow2_floor_pos)
  from pow2_floor_dyadic [OF assms(2), of 1100]
  consider (eq) "px = py" | (lt) "2 * px \<le> py" by (auto simp: px_def py_def)
  then show ?thesis
  proof cases
    case eq
    then show ?thesis by (simp add: bx by')
  next
    case lt
    show ?thesis
    proof (cases "py \<le> m")
      case True
      with lt pos have "px \<le> m" by linarith
      with True show ?thesis by (simp add: bx by' max_def)
    next
      case False
      then have mpy: "m < py" by simp
      then have ey: "binade y = py" by (simp add: by' max_def)
      have small: "(1::real) / 2 ^ 1100 < m"
        unfolding m_def by simp
      have "py \<le> y"
        using pow2_floor_le [of 1100 y] mpy small by (auto simp: py_def)
      have my: "m \<le> y" using \<open>py \<le> y\<close> mpy by linarith
      have pm: "pow2_floor 1100 m = m"
        unfolding m_def by (rule pow2_floor_inverse_power) simp
      have "2 * m \<le> py"
        using pow2_floor_dyadic [OF my, of 1100] mpy by (auto simp: pm py_def)
      with lt have two: "2 * binade x \<le> binade y"
        by (simp add: bx ey max_def)
      have "px \<noteq> 2 ^ 1100"
        using lt pos pow2_floor_upper [of 1100 y] by (auto simp: py_def)
      with pow2_floor_gt [of x 1100] have "x < 2 * px" by (simp add: px_def)
      then have "x < 2 * binade x" by (simp add: bx max_def)
      with two \<open>py \<le> y\<close> ey show ?thesis by simp
    qed
  qed
qed

lemma fl_mono_nonneg:
  assumes "0 \<le> x" "x \<le> y"
  shows "fl x \<le> fl y"
proof -
  define ux uy where "ux = ulp x" and "uy = ulp y"
  have u: "0 < ux" "0 < uy" by (simp_all add: ux_def uy_def ulp_pos)
  have ub: "binade x = ux * 2 ^ 52" "binade y = uy * 2 ^ 52"
    by (simp_all add: ux_def uy_def ulp_def)
  from binade_cases [OF assms]
  consider (same) "binade x = binade y"
    | (diff) "2 * binade x \<le> binade y" "x < 2 * binade x" "binade y \<le> y"
    by blast
  then show ?thesis
  proof cases
    case same
    then have e: "ux = uy" using ub by simp
    have "x / uy \<le> y / uy" using assms u by (simp add: divide_right_mono)
    from round_half_even_mono [OF this] show ?thesis
      using u by (simp add: fl_def e ux_def [symmetric] uy_def [symmetric])
  next
    case diff
    have "x / ux \<le> of_int (2 ^ 53)"
      using diff(2) u unfolding ub by (simp add: field_simps)
    from round_half_even_mono [OF this] have "round_half_even (x / ux) \<le> 2 ^ 53"
      unfolding round_half_even_of_int .
    then have "of_int (round_half_even (x / ux)) \<le> (2 ^ 53 :: real)"
      by (metis of_int_le_iff of_int_numeral of_int_power)
    then have "ux * of_int (round_half_even (x / ux)) \<le> ux * 2 ^ 53"
      using u by simp
    then have a: "fl x \<le> 2 * binade x"
      by (simp add: fl_def ux_def [symmetric] ub)
    have "of_int (2 ^ 52) \<le> y / uy"
      using diff(3) u unfolding ub by (simp add: field_simps)
    from round_half_even_mono [OF this] have "2 ^ 52 \<le> round_half_even (y / uy)"
      unfolding round_half_even_of_int .
    then have "(2 ^ 52 :: real) \<le> of_int (round_half_even (y / uy))"
      by (metis of_int_le_iff of_int_numeral of_int_power)
    then have "uy * 2 ^ 52 \<le> uy * of_int (round_half_even (y / uy))"
      using u by simp
    then have b: "binade y \<le> fl y"
      by (simp add: fl_def uy_def [symmetric] ub)
    from a b diff(1) show ?thesis by linarith
  qed
qed

lemma fl_mono:
  assumes "x \<le> y"
  shows "fl x \<le> fl y"
proof -
  consider (pp) "0 \<le> x" | (np) "x < 0" "0 \<le> y" | (nn) "y < 0" using assms by linarith
  then show ?thesis
  proof cases
    case pp
    then show ?thesis using assms by (rule fl_mono_nonneg)
  next
    case np
    have "0 \<le> fl (- x)" using np by (intro fl_nonneg) simp
    then have "fl x \<le> 0" by (simp add: fl_minus)
    with fl_nonneg [OF np(2)] show ?thesis by linarith
  next
    case nn
    have "fl (- y) \<le> fl (- x)" using nn assms by (intro fl_mono_nonneg) simp_all
    then show ?thesis by (simp add: fl_minus)
  qed
qed

lemmas fl_eval = fl_def ulp_def binade_def round_half_even_def pow2_floor_numeral Let_def

lemma fl_small_ints:
  "fl 0 = 0" "fl 1 = 1" "fl 2 = 2" "fl 3 = 3" "fl 4 = 4" "fl 5 = 5" "fl 6 = 6"
  "fl 60 = 60" "fl 100 = 100" "fl 120 = 120" "fl 150 = 150" "fl 180 = 180"
  "fl 240 = 240" "fl 300 = 300" "fl 360 = 360"
  by (simp_all add: fl_eval)

subsection \<open>The halved hue lies between 0 and 180\<close>

lemma fl_between:
  assumes "a \<le> x" "x \<le> b" "fl a = a" "fl b = b"
  shows "a \<le> fl x \<and> fl x \<le> b"
  using fl_mono [OF assms(1)] fl_mono [OF assms(2)] assms(3,4) by simp

lemma fl_diff_bound:
  assumes "m \<le> a" "a \<le> v" "m \<le> b" "b \<le> v"
  shows "- fl (v - m) \<le> fl (a - b) \<and> fl (a - b) \<le> fl (v - m)"
proof -
  have "a - b \<le> v - m" "- (v - m) \<le> a - b" using assms by linarith+
  from fl_mono [OF this(1)] fl_mono [OF this(2)] show ?thesis
    by (simp only: fl_minus)
qed

lemma fl_ratio_bound:
  assumes "0 < c" "- c \<le> n" "n \<le> c"
  shows "- 1 \<le> fl (n / c) \<and> fl (n / c) \<le> 1"
proof -
  have "- 1 \<le> n / c" "n / c \<le> 1" using assms by (simp_all add: field_simps)
  moreover have "fl (- 1) = - 1" by (simp only: fl_minus fl_small_ints)
  ultimately show ?thesis using fl_between [of "- 1" "n / c" 1] fl_small_ints(2) by simp
qed

lemma hue_region_bounds:
  fixes red green blue :: real
  defines "v \<equiv> max red (max green blue)"
  defines "c \<equiv> fl (v - min red (min green blue))"
  defines "h \<equiv> (if c = 0 then c
               else if v = green then fl (fl (red - blue) / c)
               else if v = red then fl (2 + fl (fl (blue - green) / c))
               else fl (4 + fl (fl (green - red) / c)))"
  shows "- 1 \<le> h \<and> h \<le> 5"
proof (cases "c = 0")
  case True
  then show ?thesis by (simp add: h_def)
next
  case False
  define m where "m = min red (min green blue)"
  have bnd: "m \<le> red" "red \<le> v" "m \<le> green" "green \<le> v" "m \<le> blue" "blue \<le> v"
    by (simp_all add: v_def m_def)
  have c: "c = fl (v - m)" by (simp add: c_def m_def)
  have "0 \<le> v - m" using bnd by linarith
  then have "0 \<le> c" unfolding c by (rule fl_nonneg)
  with False have pos: "0 < c" by simp
  have q1: "- 1 \<le> fl (fl (red - blue) / c) \<and> fl (fl (red - blue) / c) \<le> 1"
    using fl_diff_bound [OF bnd(1) bnd(2) bnd(5) bnd(6)] pos
    unfolding c [symmetric] by (intro fl_ratio_bound) simp_all
  have q2: "- 1 \<le> fl (fl (blue - green) / c) \<and> fl (fl (blue - green) / c) \<le> 1"
    using fl_diff_bound [OF bnd(5) bnd(6) bnd(3) bnd(4)] pos
    unfolding c [symmetric] by (intro fl_ratio_bound) simp_all
  have q3: "- 1 \<le> fl (fl (green - red) / c) \<and> fl (fl (green - red) / c) \<le> 1"
    using fl_diff_bound [OF bnd(3) bnd(4) bnd(1) bnd(2)] pos
    unfolding c [symmetric] by (intro fl_ratio_bound) simp_all
  have r2: "1 \<le> fl (2 + fl (fl (blue - green) / c)) \<and> fl (2 + fl (fl (blue - green) / c)) \<le> 3"
    using q2 by (intro fl_between fl_small_ints) simp_all
  have r3: "3 \<le> fl (4 + fl (fl (green - red) / c)) \<and> fl (4 + fl (fl (green - red) / c)) \<le> 5"
    using q3 by (intro fl_between fl_small_ints) simp_all
  show ?thesis using False q1 r2 r3 by (simp add: h_def)
qed

lemma hue_halved_bounds:
  assumes "- 1 \<le> h" "h \<le> 5"
  shows "0 \<le> fl (fl (60 * (if h < 0 then fl (h + 6) else h)) / 2) \<and>
         fl (fl (60 * (if h < 0 then fl (h + 6) else h)) / 2) \<le> 180"
proof (cases "h < 0")
  case True
  have a: "5 \<le> fl (h + 6) \<and> fl (h + 6) \<le> 6"
    using assms True by (intro fl_between fl_small_ints) simp_all
  have b: "300 \<le> fl (60 * fl (h + 6)) \<and> fl (60 * fl (h + 6)) \<le> 360"
    using a by (intro fl_between fl_small_ints) simp_all
  have "150 \<le> fl (fl (60 * fl (h + 6)) / 2) \<and> fl (fl (60 * fl (h + 6)) / 2) \<le> 180"
    using b by (intro fl_between fl_small_ints) simp_all
  with True show ?thesis by simp
next
  case False
  have b: "0 \<le> fl (60 * h) \<and> fl (60 * h) \<le> 300"
    using assms False by (intro fl_between fl_small_ints) simp_all
  have "0 \<le> fl (fl (60 * h) / 2) \<and> fl (fl (60 * h) / 2) \<le> 150"
    using b by (intro fl_between fl_small_ints) simp_all
  with False show ?thesis by simp
qed

lemma rgb2hsv_hue_range: "0 \<le> rgb2hsv r g b ! 0 \<and> rgb2hsv r g b ! 0 \<le> 180"
proof -
  define x y z where "x = fl (r / 255)" and "y = fl (g / 255)" and "z = fl (b / 255)"
  define v where "v = max x (max y z)"
  define c where "c = fl (v - min x (min y z))"
  define h where "h = (if c = 0 then c
               else if v = y then fl (fl (x - z) / c)
               else if v = x then fl (2 + fl (fl (z - y) / c))
               else fl (4 + fl (fl (y - x) / c)))"
  have hr: "- 1 \<le> h \<and> h \<le> 5"
    unfolding h_def c_def v_def by (rule hue_region_bounds)
  have eq: "rgb2hsv r g b ! 0 = fl (fl (60 * (if h < 0 then fl (h + 6) else h)) / 2)"
    unfolding rgb2hsv_def Let_def h_def c_def v_def x_def y_def z_def
    by (simp only: nth_Cons_0)
  show ?thesis unfolding eq using hr by (intro hue_halved_bounds) simp_all
qed

subsection \<open>The conversion of some colours\<close>

lemma rgb2hsv_black:
  "rgb2hsv 0 0 0 =
     [0, 0, 0]"
  by (simp add: rgb2hsv_def Let_def fl_small_ints)

lemma rgb2hsv_red:
  "rgb2hsv 255 0 0 =
     [60, 100, 100]"
  by (simp add: rgb2hsv_def Let_def fl_small_ints)

lemma rgb2hsv_green:
  "rgb2hsv 0 255 0 =
     [0, 100, 100]"
  by (simp add: rgb2hsv_def Let_def fl_small_ints)

lemma fl_5_5_50_1:
  "fl (1 / 51) =
     1412894000743685 / 72057594037927936"
  by (simp add: fl_eval)

lemma fl_5_5_50_2:
  "fl (10 / 51) =
     7064470003718425 / 36028797018963968"
  by (simp add: fl_eval)

lemma fl_5_5_50_3:
  "fl (12716046006693165 / 72057594037927936) =
     3179011501673291 / 18014398509481984"
  by (simp add: fl_eval)

lemma fl_5_5_50_4:
  "fl (6358023003346582 / 7064470003718425) =
     2026619832316723 / 2251799813685248"
  by (simp add: fl_eval)

lemma fl_5_5_50_5:
  "fl (50665495807918075 / 562949953421312) =
     6333186975989759 / 70368744177664"
  by (simp add: fl_eval)

lemma fl_5_5_50_6:
  "fl (176611750092960625 / 9007199254740992) =
     1379779297601255 / 70368744177664"
  by (simp add: fl_eval)

lemma rgb2hsv_5_5_50:
  "rgb2hsv 5 5 50 =
     [120, 6333186975989759 / 70368744177664, 1379779297601255 / 70368744177664]"
  by (simp add: rgb2hsv_def Let_def fl_small_ints fl_5_5_50_1 fl_5_5_50_2 fl_5_5_50_3 fl_5_5_50_4 fl_5_5_50_5 fl_5_5_50_6)

lemma fl_hue_180_1:
  "fl (1 / 293994983674745978880) =
     282578800148737 / 83076749736557242056487941267521536"
  by (simp add: fl_eval)

lemma fl_hue_180_2:
  "fl (- (282578800148737 / 83076749736557242056487941267521536)) =
     - (282578800148737 / 83076749736557242056487941267521536)"
  by (simp add: fl_eval)

lemma fl_hue_180_3:
  "fl (498460498419343452338645068804980479 / 83076749736557242056487941267521536) =
     6"
  by (simp add: fl_eval)

lemma rgb2hsv_hue_180:
  "rgb2hsv 0 255 (1 / 2 ^ 60) =
     [180, 100, 100]"
  by (simp add: rgb2hsv_def Let_def fl_small_ints fl_hue_180_1 fl_hue_180_2 fl_hue_180_3)

subsection \<open>What the send functions write\<close>

lemma byte_of_int_mod: "(word_of_int (k mod 256) :: byte) = word_of_int k"
  by (simp add: word_of_int_eq_iff take_bit_eq_mod)

lemma sendLedNetWf_bound:
  assumes "characteristic d = Some ch"
  shows "sendLedNetWf magic data d =
     (d\<lparr>counter := counter d + 1\<rparr>,
      [WriteValueWithoutResponse ch
         ([word_of_int ((counter d + 1) div 256), word_of_int (counter d + 1), 0x80, 0, 0,
           of_nat (length magic + length data), of_nat (length magic + length data + 1)]
          @ map ToUint8 magic @ data @ [0])])"
  using assms
  by (simp add: sendLedNetWf_def Let_def ToUint8_simps ToInt32_low ToInt32_high byte_of_int_mod
      del: of_nat_add of_nat_Suc)

lemma sendLedNetWf_unbound:
  "characteristic d = None \<Longrightarrow> sendLedNetWf magic data d = (d, [])"
  by (simp add: sendLedNetWf_def)

lemma sendMagicStrip_unbound:
  "characteristic d = None \<Longrightarrow> sendMagicStrip method data d = (d, [])"
  by (simp add: sendMagicStrip_def)

lemma sendKeepsmile_unbound:
  "characteristic d = None \<Longrightarrow> sendKeepsmile data d = (d, [])"
  by (simp add: sendKeepsmile_def)

lemma sendKeepsmile_bound:
  "characteristic d = Some ch \<Longrightarrow> sendKeepsmile data d = (d, [WriteValueWithoutResponse ch data])"
  by (simp add: sendKeepsmile_def)

lemma FamilyB_frame_eq:
  "FamilyB_frame cnt [s1, s2] payload chk =
     [word_of_int (cnt div 256), word_of_int cnt, 0x80, 0, 0,
      of_nat (length payload + 2), of_nat (length payload + 3), s1, s2] @ payload @ [chk]"
  by (simp add: FamilyB_frame_def byte_of_int_mod add.commute)

subsection \<open>The packets of each command, per device type\<close>

lemma rgb2hsv_length: "length (rgb2hsv r g b) = 3"
  by (simp add: rgb2hsv_def Let_def)

lemma Keepsmile_packets:
  assumes "deviceType d = KEEP_SMILE" and "characteristic d = Some ch"
  shows "setRGB r g b d =
           (d, [WriteValueWithoutResponse ch
                  [0x5A, 0x00, 0x01, ToUint8 r, ToUint8 g, ToUint8 b, 0x00,
                   ToUint8 (lastBrightness d), 0x00, 0xA5]])"
    and "setSwitch s d =
           (d, [WriteValueWithoutResponse ch [0x5B, (if s > 0 then 0xF0 else 0x0F), 0x00, 0xB5]])"
    and "setMode m d =
           (d\<lparr>lastMode := m\<rparr>,
            [WriteValueWithoutResponse ch
               [0x5C, 0x00, ToUint8 (m + 128), ToUint8 (lastSpeed d),
                ToUint8 (lastBrightness d), 0x00, 0xC5]])"
    and "setBrightness v d =
           (d\<lparr>lastBrightness := v\<rparr>,
            [WriteValueWithoutResponse ch
               [0x5C, 0x00, ToUint8 (lastMode d + 128), ToUint8 (lastSpeed d),
                ToUint8 v, 0x00, 0xC5]])"
    and "setSpeed w d =
           (d\<lparr>lastSpeed := w\<rparr>,
            [WriteValueWithoutResponse ch
               [0x5C, 0x00, ToUint8 (lastMode d + 128), ToUint8 w,
                ToUint8 (lastBrightness d), 0x00, 0xC5]])"
  using assms
  by (simp_all add: setRGB_def setSwitch_def setMode_def setBrightness_def setSpeed_def Let_def
      sendKeepsmile_bound ToUint8_simps)

lemma LedNetWf_packets:
  assumes "deviceType d = LED_NET_WF" and "characteristic d = Some ch"
  defines "hi \<equiv> word_of_int ((counter d + 1) div 256)" and "lo \<equiv> word_of_int (counter d + 1)"
  shows "setRGB r g b d =
           (d\<lparr>counter := counter d + 1\<rparr>, [WriteValueWithoutResponse ch
                  ([hi, lo, 0x80, 0, 0, 13, 14, 0x0B, 0x3B, 0xA1] @ map ToUint8 (rgb2hsv r g b) @ replicate 7 0 @ [0])])"
    and "setSwitch s d =
           (d\<lparr>counter := counter d + 1\<rparr>, [WriteValueWithoutResponse ch 
              ([hi, lo, 0x80, 0, 0, 13, 14, 0x0B, 0x3B, (if s > 0 then 0x23 else 0x24)] @ replicate 10 0 @ [0])])"
    and "setMode m d =
           (d\<lparr>lastMode := m, counter := counter d + 1\<rparr>,
            [WriteValueWithoutResponse ch
               [hi, lo, 0x80, 0, 0, 5, 6, 0x0B, 0x38, ToUint8 m, ToUint8 (lastSpeed d),
                ToUint8 (lastBrightness d), 0]])"
    and "setBrightness v d =
           (d\<lparr>lastBrightness := v, counter := counter d + 1\<rparr>,
            [WriteValueWithoutResponse ch
               [hi, lo, 0x80, 0, 0, 5, 6, 0x0B, 0x38, ToUint8 (lastMode d), ToUint8 (lastSpeed d),
                ToUint8 v, 0]])"
    and "setSpeed w d =
           (d\<lparr>lastSpeed := w, counter := counter d + 1\<rparr>,
            [WriteValueWithoutResponse ch
               [hi, lo, 0x80, 0, 0, 5, 6, 0x0B, 0x38, ToUint8 (lastMode d), ToUint8 w,
                ToUint8 (lastBrightness d), 0]])"
  using assms
  by (simp_all add: setRGB_def setSwitch_def setMode_def setBrightness_def setSpeed_def Let_def
      sendLedNetWf_bound ToUint8_simps rgb2hsv_length)

subsection \<open>The counter along a sequence of commands\<close>

lemma unat_byte_of_int: "unat (word_of_int k :: byte) = nat (k mod 256)"
  by (simp add: unat_eq_nat_uint uint_word_of_int)

lemma counter_field_bytes:
  "counter_field (word_of_int (k div 256) # word_of_int k # rest) = nat (k mod 65536)"
proof -
  have "k mod (256 * 256) = 256 * (k div 256 mod 256) + k mod 256"
    using zmod_zmult2_eq [of 256 k 256] by simp
  moreover have "0 \<le> k div 256 mod 256" "0 \<le> k mod 256" by simp_all
  ultimately show ?thesis
    by (simp add: counter_field_def unat_byte_of_int nat_add_distrib nat_mult_distrib)
qed

lemma packets_append: "packets (xs @ ys) = packets xs @ packets ys"
  by (induction xs rule: packets.induct) simp_all

lemma exec_LedNetWf:
  assumes "deviceType d = LED_NET_WF" and "characteristic d = Some ch"
  shows "\<exists>pkt d'. exec c d = (d', [WriteValueWithoutResponse ch pkt]) \<and>
           counter_field pkt = nat ((counter d + 1) mod 65536) \<and>
           counter d' = counter d + 1 \<and> deviceType d' = LED_NET_WF \<and>
           characteristic d' = Some ch"
  using assms
  by (cases c) (simp_all add: LedNetWf_packets counter_field_bytes del: of_int_add)

lemma exec_not_LedNetWf:
  assumes "deviceType d \<noteq> LED_NET_WF"
  shows "counter (fst (exec c d)) = counter d \<and> deviceType (fst (exec c d)) = deviceType d"
  using assms
  by (cases c; cases "characteristic d")
     (auto simp: setRGB_def setSwitch_def setMode_def setBrightness_def setSpeed_def Let_def
        sendMagicStrip_def sendKeepsmile_def)

lemma run_Cons:
  "run (c # cs) d =
     (fst (run cs (fst (exec c d))), snd (exec c d) @ snd (run cs (fst (exec c d))))"
  by (simp split: prod.splits)

lemma run_not_LedNetWf:
  "deviceType d \<noteq> LED_NET_WF \<Longrightarrow> counter (fst (run cs d)) = counter d"
proof (induction cs arbitrary: d)
  case Nil
  then show ?case by simp
next
  case (Cons c cs)
  obtain d' evs where e: "exec c d = (d', evs)" by (cases "exec c d")
  with exec_not_LedNetWf [OF Cons.prems, of c]
  have "counter d' = counter d" "deviceType d' \<noteq> LED_NET_WF" using Cons.prems by simp_all
  with Cons.IH [of d'] e show ?case by (simp add: run_Cons del: run.simps)
qed

lemma upt_0_Suc: "[0..<Suc n] = 0 # map Suc [0..<n]"
  by (simp add: upt_conv_Cons map_Suc_upt del: upt_Suc)

lemma run_LedNetWf:
  assumes "deviceType d = LED_NET_WF" and "characteristic d = Some ch"
  shows "counter (fst (run cs d)) = counter d + int (length cs) \<and>
         map counter_field (packets (snd (run cs d))) =
           map (\<lambda>k. nat ((counter d + 1 + int k) mod 65536)) [0..<length cs]"
  using assms
proof (induction cs arbitrary: d)
  case Nil
  then show ?case by simp
next
  case (Cons c cs)
  from exec_LedNetWf [OF Cons.prems, of c] obtain pkt d' where
    e: "exec c d = (d', [WriteValueWithoutResponse ch pkt])" and
    f: "counter_field pkt = nat ((counter d + 1) mod 65536)" and
    c: "counter d' = counter d + 1" and
    t: "deviceType d' = LED_NET_WF" "characteristic d' = Some ch"
    by blast
  from Cons.IH [OF t] c have ih:
    "counter (fst (run cs d')) = counter d + 1 + int (length cs)"
    "map counter_field (packets (snd (run cs d'))) =
       map (\<lambda>k. nat ((counter d + 1 + 1 + int k) mod 65536)) [0..<length cs]"
    by simp_all
  have "map (\<lambda>k. nat ((counter d + 1 + int k) mod 65536)) [0..<length (c # cs)] =
        nat ((counter d + 1) mod 65536) # map (\<lambda>k. nat ((counter d + 1 + 1 + int k) mod 65536)) [0..<length cs]"
    by (simp add: upt_0_Suc comp_def add.commute add.left_commute del: upt_Suc)
  with e f ih show ?case
    by (simp add: run_Cons packets_append del: upt_Suc run.simps)
qed

lemma field_distinct:
  fixes c :: int and i j :: nat
  assumes "i < j" "j - i < 65536"
  shows "nat ((c + 1 + int i) mod 65536) \<noteq> nat ((c + 1 + int j) mod 65536)"
proof
  assume "nat ((c + 1 + int i) mod 65536) = nat ((c + 1 + int j) mod 65536)"
  then have "(c + 1 + int i) mod 65536 = (c + 1 + int j) mod 65536"
    by (simp add: nat_eq_iff)
  then have "65536 dvd (c + 1 + int j) - (c + 1 + int i)"
    by (metis mod_eq_dvd_iff)
  then have "(65536::int) dvd int j - int i" by simp
  moreover have "0 < int j - int i" "int j - int i < 65536" using assms by linarith+
  ultimately show False by (meson zdvd_not_zless)
qed

lemma field_succ:
  fixes x :: int
  shows "nat ((x + 1) mod 65536) = (nat (x mod 65536) + 1) mod 65536"
proof -
  have "(x + 1) mod 65536 = (x mod 65536 + 1) mod 65536" by (simp add: mod_add_left_eq)
  moreover have "0 \<le> x mod 65536" by simp
  ultimately show ?thesis
    by (simp add: nat_mod_distrib nat_add_distrib)
qed

subsection \<open>Negotiation\<close>

lemmas guid_defs =
  guidServiceMagicStrip_def guidCharacteristicMagicStrip_def
  guidServiceLedNetWf_def guidCharacteristicLedNetWf_def
  guidServiceKeepsmile_def guidCharacteristicKeepsmile_def

lemmas connect_defs =
  connect_def connect_failed_def negotiate_def probe_def fake_transport_def Let_def

lemma probe_keeps:
  assumes "probe t gs gc ty d = (r, d', evs)"
  shows "lastMode d' = lastMode d" "lastBrightness d' = lastBrightness d"
    "lastSpeed d' = lastSpeed d" "counter d' = counter d"
    "onError d' = onError d" "onConnect d' = onConnect d" "onDisconnect d' = onDisconnect d"
  using assms by (auto simp: probe_def Let_def split: sum.splits)

lemma negotiate_keeps:
  assumes "negotiate t d = (r, d', evs)"
  shows "lastMode d' = lastMode d" "lastBrightness d' = lastBrightness d"
    "lastSpeed d' = lastSpeed d" "counter d' = counter d"
    "onError d' = onError d" "onConnect d' = onConnect d" "onDisconnect d' = onDisconnect d"
proof -
  obtain r1 d1 e1 where p1:
    "probe t guidServiceMagicStrip guidCharacteristicMagicStrip MAGIC_STRIP d = (r1, d1, e1)"
    by (metis prod_cases3)
  obtain r2 d2 e2 where p2:
    "probe t guidServiceLedNetWf guidCharacteristicLedNetWf LED_NET_WF d1 = (r2, d2, e2)"
    by (metis prod_cases3)
  obtain r3 d3 e3 where p3:
    "probe t guidServiceKeepsmile guidCharacteristicKeepsmile KEEP_SMILE d2 = (r3, d3, e3)"
    by (metis prod_cases3)
  from assms p1 p2 p3 have "d' = d1 \<or> d' = d2 \<or> d' = d3"
    by (auto simp: negotiate_def split: option.splits)
  with probe_keeps [OF p1] probe_keeps [OF p2] probe_keeps [OF p3]
  show "lastMode d' = lastMode d" "lastBrightness d' = lastBrightness d"
    "lastSpeed d' = lastSpeed d" "counter d' = counter d"
    "onError d' = onError d" "onConnect d' = onConnect d" "onDisconnect d' = onDisconnect d"
    by auto
qed

lemma connect_keeps:
  "lastMode (fst (connect t oc od oe d)) = lastMode d"
  "lastBrightness (fst (connect t oc od oe d)) = lastBrightness d"
  "lastSpeed (fst (connect t oc od oe d)) = lastSpeed d"
  "counter (fst (connect t oc od oe d)) = counter d"
proof -
  let ?d = "d\<lparr>onConnect := oc, onDisconnect := od, onError := oe\<rparr>"
  obtain r d' evs where n: "negotiate t ?d = (r, d', evs)"
    by (metis prod_cases3)
  note k = negotiate_keeps [OF n]
  show "lastMode (fst (connect t oc od oe d)) = lastMode d"
    using n k
    by (auto simp: connect_def connect_failed_def Let_def split: sum.splits option.splits)
  show "lastBrightness (fst (connect t oc od oe d)) = lastBrightness d"
    using n k
    by (auto simp: connect_def connect_failed_def Let_def split: sum.splits option.splits)
  show "lastSpeed (fst (connect t oc od oe d)) = lastSpeed d"
    using n k
    by (auto simp: connect_def connect_failed_def Let_def split: sum.splits option.splits)
  show "counter (fst (connect t oc od oe d)) = counter d"
    using n k
    by (auto simp: connect_def connect_failed_def Let_def split: sum.splits option.splits)
qed

lemma lookups_append: "lookups (xs @ ys) = lookups xs @ lookups ys"
  by (induction xs rule: lookups.induct) simp_all

lemma callbacks_append: "callbacks (xs @ ys) = callbacks xs @ callbacks ys"
  by (induction xs rule: callbacks.induct) simp_all

lemma probe_resolved:
  assumes "resolves t gs gc = Inr ch"
  shows "\<exists>evs. probe t gs gc ty d = (None, d\<lparr>deviceType := ty, characteristic := Some ch\<rparr>, evs)
           \<and> lookups evs = [gs] \<and> callbacks evs = []"
  using assms by (auto simp: resolves_def probe_def Let_def split: sum.splits)

lemma probe_unresolved:
  assumes "resolves t gs gc = Inl exc"
  shows "\<exists>d' evs. probe t gs gc ty d = (Some exc, d', evs) \<and>
           lookups evs = [gs] \<and> callbacks evs = [] \<and>
           characteristic d' = characteristic d \<and>
           (isl (getPrimaryService t gs) \<longrightarrow> d' = d) \<and>
           onError d' = onError d \<and> onConnect d' = onConnect d"
  using assms by (auto simp: resolves_def probe_def Let_def split: sum.splits)

lemma negotiate_first:
  assumes "resolves t guidServiceMagicStrip guidCharacteristicMagicStrip = Inr ch"
  shows "\<exists>evs. negotiate t d =
            (None, d\<lparr>deviceType := MAGIC_STRIP, characteristic := Some ch\<rparr>, evs) \<and>
           lookups evs = [guidServiceMagicStrip] \<and> callbacks evs = []"
  using probe_resolved [OF assms, of MAGIC_STRIP d]
  by (auto simp: negotiate_def)

lemma negotiate_second:
  assumes "resolves t guidServiceMagicStrip guidCharacteristicMagicStrip = Inl e1"
    and "resolves t guidServiceLedNetWf guidCharacteristicLedNetWf = Inr ch"
  shows "\<exists>d' evs. negotiate t d = (None, d', evs) \<and>
           deviceType d' = LED_NET_WF \<and> characteristic d' = Some ch \<and>
           onConnect d' = onConnect d \<and>
           lookups evs = [guidServiceMagicStrip, guidServiceLedNetWf] \<and> callbacks evs = []"
proof -
  from probe_unresolved [OF assms(1), of MAGIC_STRIP d] obtain d1 ev1 where
    p1: "probe t guidServiceMagicStrip guidCharacteristicMagicStrip MAGIC_STRIP d = (Some e1, d1, ev1)"
    and f1: "lookups ev1 = [guidServiceMagicStrip]" "callbacks ev1 = []" "onConnect d1 = onConnect d"
    by blast
  from probe_resolved [OF assms(2), of LED_NET_WF d1] obtain ev2 where
    p2: "probe t guidServiceLedNetWf guidCharacteristicLedNetWf LED_NET_WF d1 =
           (None, d1\<lparr>deviceType := LED_NET_WF, characteristic := Some ch\<rparr>, ev2)"
    and f2: "lookups ev2 = [guidServiceLedNetWf]" "callbacks ev2 = []"
    by blast
  show ?thesis
    using p1 p2 f1 f2 by (simp add: negotiate_def lookups_append callbacks_append)
qed

lemma negotiate_third:
  assumes "resolves t guidServiceMagicStrip guidCharacteristicMagicStrip = Inl e1"
    and "resolves t guidServiceLedNetWf guidCharacteristicLedNetWf = Inl e2"
    and "resolves t guidServiceKeepsmile guidCharacteristicKeepsmile = Inr ch"
  shows "\<exists>d' evs. negotiate t d = (None, d', evs) \<and>
           deviceType d' = KEEP_SMILE \<and> characteristic d' = Some ch \<and>
           onConnect d' = onConnect d \<and>
           lookups evs = [guidServiceMagicStrip, guidServiceLedNetWf, guidServiceKeepsmile] \<and>
           callbacks evs = []"
proof -
  from probe_unresolved [OF assms(1), of MAGIC_STRIP d] obtain d1 ev1 where
    p1: "probe t guidServiceMagicStrip guidCharacteristicMagicStrip MAGIC_STRIP d = (Some e1, d1, ev1)"
    and f1: "lookups ev1 = [guidServiceMagicStrip]" "callbacks ev1 = []" "onConnect d1 = onConnect d"
    by blast
  from probe_unresolved [OF assms(2), of LED_NET_WF d1] obtain d2 ev2 where
    p2: "probe t guidServiceLedNetWf guidCharacteristicLedNetWf LED_NET_WF d1 = (Some e2, d2, ev2)"
    and f2: "lookups ev2 = [guidServiceLedNetWf]" "callbacks ev2 = []" "onConnect d2 = onConnect d1"
    by blast
  from probe_resolved [OF assms(3), of KEEP_SMILE d2] obtain ev3 where
    p3: "probe t guidServiceKeepsmile guidCharacteristicKeepsmile KEEP_SMILE d2 =
           (None, d2\<lparr>deviceType := KEEP_SMILE, characteristic := Some ch\<rparr>, ev3)"
    and f3: "lookups ev3 = [guidServiceKeepsmile]" "callbacks ev3 = []"
    by blast
  show ?thesis
    using p1 p2 p3 f1 f2 f3 by (simp add: negotiate_def lookups_append callbacks_append)
qed

lemma negotiate_exhausted:
  assumes "resolves t guidServiceMagicStrip guidCharacteristicMagicStrip = Inl e1"
    and "resolves t guidServiceLedNetWf guidCharacteristicLedNetWf = Inl e2"
    and "resolves t guidServiceKeepsmile guidCharacteristicKeepsmile = Inl e3"
  shows "\<exists>d' evs. negotiate t d = (Some e3, d', evs) \<and>
           characteristic d' = characteristic d \<and>
           onError d' = onError d \<and>
           (isl (getPrimaryService t guidServiceMagicStrip) \<and>
            isl (getPrimaryService t guidServiceLedNetWf) \<and>
            isl (getPrimaryService t guidServiceKeepsmile) \<longrightarrow> d' = d) \<and>
           lookups evs = [guidServiceMagicStrip, guidServiceLedNetWf, guidServiceKeepsmile] \<and>
           callbacks evs = []"
proof -
  from probe_unresolved [OF assms(1), of MAGIC_STRIP d] obtain d1 ev1 where
    p1: "probe t guidServiceMagicStrip guidCharacteristicMagicStrip MAGIC_STRIP d = (Some e1, d1, ev1)"
    and f1: "lookups ev1 = [guidServiceMagicStrip]" "callbacks ev1 = []"
      "characteristic d1 = characteristic d" "onError d1 = onError d"
      "isl (getPrimaryService t guidServiceMagicStrip) \<longrightarrow> d1 = d"
    by blast
  from probe_unresolved [OF assms(2), of LED_NET_WF d1] obtain d2 ev2 where
    p2: "probe t guidServiceLedNetWf guidCharacteristicLedNetWf LED_NET_WF d1 = (Some e2, d2, ev2)"
    and f2: "lookups ev2 = [guidServiceLedNetWf]" "callbacks ev2 = []"
      "characteristic d2 = characteristic d1" "onError d2 = onError d1"
      "isl (getPrimaryService t guidServiceLedNetWf) \<longrightarrow> d2 = d1"
    by blast
  from probe_unresolved [OF assms(3), of KEEP_SMILE d2] obtain d3 ev3 where
    p3: "probe t guidServiceKeepsmile guidCharacteristicKeepsmile KEEP_SMILE d2 = (Some e3, d3, ev3)"
    and f3: "lookups ev3 = [guidServiceKeepsmile]" "callbacks ev3 = []"
      "characteristic d3 = characteristic d2" "onError d3 = onError d2"
      "isl (getPrimaryService t guidServiceKeepsmile) \<longrightarrow> d3 = d2"
    by blast
  show ?thesis
    using p1 p2 p3 f1 f2 f3 by (simp add: negotiate_def lookups_append callbacks_append)
qed

lemma connect_negotiates:
  assumes "requestDevice t = Inr (Some dev)" and "gattConnect t = Inr u"
  shows "connect t oc od oe d =
     (case negotiate t (d\<lparr>onConnect := oc, onDisconnect := od, onError := oe\<rparr>) of
        (Some exc, d', evs) \<Rightarrow> connect_failed exc d' evs
      | (None, d', evs) \<Rightarrow>
          (case onConnect d' of
             None \<Rightarrow> (d', evs)
           | Some cb \<Rightarrow> (d', evs @ [OnConnect cb dev])))"
  using assms by (simp add: connect_def Let_def)

section \<open>Claims\<close>

text \<open>
  C1.  The claim: the last byte of every LEDnetWF packet is the sum of the bytes from
  index 9 up to the last but one, modulo 256.  \<open>sendLedNetWf\<close> appends the constant
  \<open>checksum = 0\<close> instead.  Switching on a connected LEDnetWF device writes the packet
  below: its last byte is 0, while the sum over its bytes 9 to 19 is 35 (the byte 0x23).
\<close>

theorem sendLedNetWf_checksum_constant_zero:
  "packets (snd (setSwitch 1
      (new_Device\<lparr>deviceType := LED_NET_WF, characteristic := Some 7\<rparr>))) =
     [[0, 1, 0x80, 0, 0, 13, 14, 0x0B, 0x3B, 0x23, 0, 0, 0, 0, 0, 0, 0, 0, 0, 0, 0]] \<and>
   unat (last (hd (packets (snd (setSwitch 1
      (new_Device\<lparr>deviceType := LED_NET_WF, characteristic := Some 7\<rparr>)))))) = 0 \<and>
   calculateChecksum (hd (packets (snd (setSwitch 1
      (new_Device\<lparr>deviceType := LED_NET_WF, characteristic := Some 7\<rparr>))))) = 35"
  by (simp add: setSwitch_def new_Device_def sendLedNetWf_def ToUint8_simps ToInt32_def
      calculateChecksum_def Let_def replicate_10)

text \<open>
  C2, as stated: when all three candidates fail, a candidate failing as soon as one of
  its two lookups fails, the device type remains \<open>UNKNOWN\<close>.  It does not when a
  service is found whose characteristic is not: the device type is stored between the
  two lookups.  Here only the Keepsmile service exists, without its characteristic.
\<close>

theorem negotiation_partial_state_counterexample:
  "resolves (fake_transport [(guidServiceKeepsmile, 3)] [])
     guidServiceMagicStrip guidCharacteristicMagicStrip = Inl ''NotFoundError'' \<and>
   resolves (fake_transport [(guidServiceKeepsmile, 3)] [])
     guidServiceLedNetWf guidCharacteristicLedNetWf = Inl ''NotFoundError'' \<and>
   resolves (fake_transport [(guidServiceKeepsmile, 3)] [])
     guidServiceKeepsmile guidCharacteristicKeepsmile = Inl ''NotFoundError'' \<and>
   deviceType new_Device = UNKNOWN \<and>
   deviceType (fst (connect (fake_transport [(guidServiceKeepsmile, 3)] []) None None (Some 0)
     new_Device)) = KEEP_SMILE"
  by (simp add: resolves_def connect_defs guid_defs new_Device_def)

text \<open>
  C2, amended: when the device is selected, the GATT server connects and all three
  candidates fail, \<open>connect\<close> calls the error callback, if one is registered, with
  the exception of the last candidate and calls no other callback; the characteristic
  is left as it was (unbound on a new device); and when all three primary-service lookups
  fail, the device type is left as it was (\<open>UNKNOWN\<close> on a new device).
\<close>

theorem negotiation_exhausted:
  assumes "requestDevice t = Inr (Some dev)" and "gattConnect t = Inr u"
    and "resolves t guidServiceMagicStrip guidCharacteristicMagicStrip = Inl e1"
    and "resolves t guidServiceLedNetWf guidCharacteristicLedNetWf = Inl e2"
    and "resolves t guidServiceKeepsmile guidCharacteristicKeepsmile = Inl e3"
  shows "callbacks (snd (connect t oc od (Some cb) d)) = [OnError cb e3] \<and>
         callbacks (snd (connect t oc od None d)) = [] \<and>
         characteristic (fst (connect t oc od oe d)) = characteristic d \<and>
         (isl (getPrimaryService t guidServiceMagicStrip) \<and>
          isl (getPrimaryService t guidServiceLedNetWf) \<and>
          isl (getPrimaryService t guidServiceKeepsmile) \<longrightarrow>
            deviceType (fst (connect t oc od oe d)) = deviceType d)"
proof -
  have *: "\<exists>d' evs. connect t oc od oe' d = connect_failed e3 d' evs \<and>
             characteristic d' = characteristic d \<and> onError d' = oe' \<and>
             (isl (getPrimaryService t guidServiceMagicStrip) \<and>
              isl (getPrimaryService t guidServiceLedNetWf) \<and>
              isl (getPrimaryService t guidServiceKeepsmile) \<longrightarrow> deviceType d' = deviceType d) \<and>
             callbacks evs = []" for oe'
  proof -
    let ?d = "d\<lparr>onConnect := oc, onDisconnect := od, onError := oe'\<rparr>"
    from negotiate_exhausted [OF assms(3-5), of ?d] obtain d' evs where
      n: "negotiate t ?d = (Some e3, d', evs)" and
      f: "characteristic d' = characteristic ?d" "onError d' = onError ?d"
         "isl (getPrimaryService t guidServiceMagicStrip) \<and>
          isl (getPrimaryService t guidServiceLedNetWf) \<and>
          isl (getPrimaryService t guidServiceKeepsmile) \<longrightarrow> d' = ?d"
         "callbacks evs = []"
      by blast
    have e: "connect t oc od oe' d = connect_failed e3 d' evs"
      unfolding connect_negotiates [OF assms(1,2)] n by simp
    have g: "characteristic d' = characteristic d" "onError d' = oe'"
      using f(1,2) by simp_all
    have h: "isl (getPrimaryService t guidServiceMagicStrip) \<and>
              isl (getPrimaryService t guidServiceLedNetWf) \<and>
              isl (getPrimaryService t guidServiceKeepsmile) \<longrightarrow> deviceType d' = deviceType d"
      using f(3) by auto
    from e g h f(4) show ?thesis by blast
  qed
  from * [of "Some cb"] have a: "callbacks (snd (connect t oc od (Some cb) d)) = [OnError cb e3]"
    by (auto simp: connect_failed_def callbacks_append)
  from * [of None] have b: "callbacks (snd (connect t oc od None d)) = []"
    by (auto simp: connect_failed_def)
  from * [of oe] have c: "characteristic (fst (connect t oc od oe d)) = characteristic d"
    "isl (getPrimaryService t guidServiceMagicStrip) \<and>
          isl (getPrimaryService t guidServiceLedNetWf) \<and>
          isl (getPrimaryService t guidServiceKeepsmile) \<longrightarrow>
            deviceType (fst (connect t oc od oe d)) = deviceType d"
    by (auto simp: connect_failed_def split: option.splits)
  from a b c show ?thesis by blast
qed

text \<open>
  Witness for C2: no service exists; the callback 0 receives the exception and the new
  device stays \<open>UNKNOWN\<close> and unbound.
\<close>

theorem negotiation_exhausted_witness:
  "requestDevice (fake_transport [] []) = Inr (Some ''LED'') \<and>
   gattConnect (fake_transport [] []) = Inr () \<and>
   resolves (fake_transport [] []) guidServiceMagicStrip guidCharacteristicMagicStrip
     = Inl ''NotFoundError'' \<and>
   resolves (fake_transport [] []) guidServiceLedNetWf guidCharacteristicLedNetWf
     = Inl ''NotFoundError'' \<and>
   resolves (fake_transport [] []) guidServiceKeepsmile guidCharacteristicKeepsmile
     = Inl ''NotFoundError'' \<and>
   isl (getPrimaryService (fake_transport [] []) guidServiceMagicStrip) \<and>
   isl (getPrimaryService (fake_transport [] []) guidServiceLedNetWf) \<and>
   isl (getPrimaryService (fake_transport [] []) guidServiceKeepsmile) \<and>
   callbacks (snd (connect (fake_transport [] []) None None (Some 0) new_Device))
     = [OnError 0 ''NotFoundError''] \<and>
   characteristic (fst (connect (fake_transport [] []) None None (Some 0) new_Device)) = None \<and>
   deviceType (fst (connect (fake_transport [] []) None None (Some 0) new_Device)) = UNKNOWN"
proof -
  let ?t = "fake_transport [] []"
  have h: "requestDevice ?t = Inr (Some ''LED'')" "gattConnect ?t = Inr ()"
    "resolves ?t guidServiceMagicStrip guidCharacteristicMagicStrip = Inl ''NotFoundError''"
    "resolves ?t guidServiceLedNetWf guidCharacteristicLedNetWf = Inl ''NotFoundError''"
    "resolves ?t guidServiceKeepsmile guidCharacteristicKeepsmile = Inl ''NotFoundError''"
    by (simp_all add: fake_transport_def resolves_def)
  have i: "isl (getPrimaryService ?t guidServiceMagicStrip)"
    "isl (getPrimaryService ?t guidServiceLedNetWf)"
    "isl (getPrimaryService ?t guidServiceKeepsmile)"
    by (simp_all add: fake_transport_def)
  have n: "characteristic new_Device = None" "deviceType new_Device = UNKNOWN"
    by (simp_all add: new_Device_def)
  from negotiation_exhausted [OF h, of None None 0 new_Device "Some 0"] h i n
  show ?thesis by simp
qed

text \<open>
  C3, as stated: \<open>rgb2hsv(255, 0, 0)\<close> has hue 0, saturation 100 and value 100.
  It does not: with red and green swapped, pure red is converted as pure green, whose
  hue of 120 degrees is halved to 60.
\<close>

theorem rgb2hsv_red_hue_not_zero: "rgb2hsv 255 0 0 \<noteq> [0, 100, 100]"
  by (simp add: rgb2hsv_red)

text \<open>
  C3, amended: \<open>rgb2hsv(0, 0, 0) = (0, 0, 0)\<close>; \<open>rgb2hsv(255, 0, 0)\<close> is hue 60,
  saturation 100, value 100, and it is \<open>rgb2hsv(0, 255, 0)\<close> that has hue 0, saturation
  100 and value 100; for all inputs the halved hue lies in the interval from 0 to 180,
  both included.  The end 180 is reached: at \<open>(0, 255, 2 ^ -60)\<close> the sum \<open>h + 6\<close>
  rounds to 6.
\<close>

theorem rgb2hsv_test_vectors:
  "rgb2hsv 0 0 0 = [0, 0, 0] \<and>
   rgb2hsv 255 0 0 = [60, 100, 100] \<and>
   rgb2hsv 0 255 0 = [0, 100, 100] \<and>
   0 \<le> rgb2hsv r g b ! 0 \<and> rgb2hsv r g b ! 0 \<le> 180 \<and>
   rgb2hsv 0 255 (1 / 2 ^ 60) ! 0 = 180"
proof -
  have "rgb2hsv 0 255 (1 / 2 ^ 60) ! 0 = 180"
    by (simp only: rgb2hsv_hue_180 nth_Cons_0)
  then show ?thesis
    using rgb2hsv_black rgb2hsv_red rgb2hsv_green rgb2hsv_hue_range [of r g b]
    by (simp only: simp_thms)
qed

text \<open>
  C4.  On a bound LEDnetWF or Keepsmile device, \<open>setBrightness(v)\<close> followed by
  \<open>setSpeed(w)\<close> leaves the cache at the old mode, speed \<open>w\<close> and brightness \<open>v\<close>,
  and the second packet carries exactly these three values, each stored as a byte:
  mode, speed, brightness at the bytes 9 to 11 of the LEDnetWF packet, and mode plus 128,
  speed, brightness at the bytes 2 to 4 of the Keepsmile packet.
\<close>

theorem brightness_then_speed_combined:
  assumes "characteristic d = Some ch"
  shows "(deviceType d = LED_NET_WF \<longrightarrow>
            setSpeed w (fst (setBrightness v d)) =
              (d\<lparr>lastBrightness := v, lastSpeed := w, counter := counter d + 2\<rparr>,
               [WriteValueWithoutResponse ch
                  [word_of_int ((counter d + 2) div 256), word_of_int (counter d + 2),
                   0x80, 0, 0, 5, 6, 0x0B, 0x38,
                   ToUint8 (lastMode d), ToUint8 w, ToUint8 v, 0]])) \<and>
         (deviceType d = KEEP_SMILE \<longrightarrow>
            setSpeed w (fst (setBrightness v d)) =
              (d\<lparr>lastBrightness := v, lastSpeed := w\<rparr>,
               [WriteValueWithoutResponse ch
                  [0x5C, 0x00, ToUint8 (lastMode d + 128), ToUint8 w, ToUint8 v, 0x00, 0xC5]]))"
proof (intro conjI impI)
  assume b: "deviceType d = LED_NET_WF"
  let ?d1 = "d\<lparr>lastBrightness := v, counter := counter d + 1\<rparr>"
  have 1: "fst (setBrightness v d) = ?d1"
    by (simp add: LedNetWf_packets(4) [OF b assms])
  have t: "deviceType ?d1 = LED_NET_WF" "characteristic ?d1 = Some ch"
    using b assms by simp_all
  show "setSpeed w (fst (setBrightness v d)) =
              (d\<lparr>lastBrightness := v, lastSpeed := w, counter := counter d + 2\<rparr>,
               [WriteValueWithoutResponse ch
                  [word_of_int ((counter d + 2) div 256), word_of_int (counter d + 2),
                   0x80, 0, 0, 5, 6, 0x0B, 0x38,
                   ToUint8 (lastMode d), ToUint8 w, ToUint8 v, 0]])"
    unfolding 1 LedNetWf_packets(5) [OF t] by (simp add: add.commute del: of_int_add)
next
  assume k: "deviceType d = KEEP_SMILE"
  let ?d1 = "d\<lparr>lastBrightness := v\<rparr>"
  have 1: "fst (setBrightness v d) = ?d1"
    by (simp add: Keepsmile_packets(4) [OF k assms])
  have t: "deviceType ?d1 = KEEP_SMILE" "characteristic ?d1 = Some ch"
    using k assms by simp_all
  show "setSpeed w (fst (setBrightness v d)) =
              (d\<lparr>lastBrightness := v, lastSpeed := w\<rparr>,
               [WriteValueWithoutResponse ch
                  [0x5C, 0x00, ToUint8 (lastMode d + 128), ToUint8 w, ToUint8 v, 0x00, 0xC5]])"
    unfolding 1 by (simp add: Keepsmile_packets(5) [OF t])
qed

text \<open>
  Witness for C4: cached mode 7, then brightness 50 and speed 20, for both device types.
\<close>

theorem brightness_then_speed_combined_witness:
  "characteristic (new_Device\<lparr>deviceType := LED_NET_WF, lastMode := 7, characteristic := Some 3\<rparr>)
     = Some 3 \<and>
   deviceType (new_Device\<lparr>deviceType := LED_NET_WF, lastMode := 7, characteristic := Some 3\<rparr>)
     = LED_NET_WF \<and>
   snd (setSpeed 20 (fst (setBrightness 50
     (new_Device\<lparr>deviceType := LED_NET_WF, lastMode := 7, characteristic := Some 3\<rparr>)))) =
     [WriteValueWithoutResponse 3 [0, 2, 0x80, 0, 0, 5, 6, 0x0B, 0x38, 7, 20, 50, 0]] \<and>
   characteristic (new_Device\<lparr>deviceType := KEEP_SMILE, lastMode := 7, characteristic := Some 3\<rparr>)
     = Some 3 \<and>
   deviceType (new_Device\<lparr>deviceType := KEEP_SMILE, lastMode := 7, characteristic := Some 3\<rparr>)
     = KEEP_SMILE \<and>
   snd (setSpeed 20 (fst (setBrightness 50
     (new_Device\<lparr>deviceType := KEEP_SMILE, lastMode := 7, characteristic := Some 3\<rparr>)))) =
     [WriteValueWithoutResponse 3 [0x5C, 0x00, 135, 20, 50, 0x00, 0xC5]]"
proof -
  let ?b = "new_Device\<lparr>deviceType := LED_NET_WF, lastMode := 7, characteristic := Some 3\<rparr>"
  let ?k = "new_Device\<lparr>deviceType := KEEP_SMILE, lastMode := 7, characteristic := Some 3\<rparr>"
  have hb: "characteristic ?b = Some 3" "deviceType ?b = LED_NET_WF"
    and hk: "characteristic ?k = Some 3" "deviceType ?k = KEEP_SMILE"
    by (simp_all add: new_Device_def)
  have c: "counter ?b = 0" "lastMode ?b = 7" "lastMode ?k = 7"
    by (simp_all add: new_Device_def)
  show ?thesis
    using hb hk brightness_then_speed_combined [OF hb(1), of 20 50]
      brightness_then_speed_combined [OF hk(1), of 20 50]
    unfolding c by (simp add: ToUint8_simps)
qed

text \<open>
  C5.  On a bound LEDnetWF device every command writes one packet and adds one to the
  counter, and the packet carries the counter after the increment in its first two
  bytes.  On any other device type no command changes the counter.  Along a sequence of
  commands on a bound LEDnetWF device the \<open>k\<close>-th packet carries the old counter plus
  \<open>k + 1\<close> modulo 65536: each field is its predecessor plus one modulo 65536, and two
  packets less than 65536 sends apart carry different fields.
\<close>

theorem FamilyB_send_counter:
  "(deviceType d = LED_NET_WF \<and> characteristic d = Some ch \<longrightarrow>
      length (packets (snd (exec c d))) = 1 \<and>
      counter (fst (exec c d)) = counter d + 1 \<and>
      counter_field (hd (packets (snd (exec c d)))) = nat ((counter d + 1) mod 65536)) \<and>
   (deviceType d \<noteq> LED_NET_WF \<longrightarrow>
      counter (fst (exec c d)) = counter d \<and> counter (fst (run cs d)) = counter d) \<and>
   (deviceType d = LED_NET_WF \<and> characteristic d = Some ch \<longrightarrow>
      length (packets (snd (run cs d))) = length cs \<and>
      counter (fst (run cs d)) = counter d + int (length cs) \<and>
      (\<forall>k. k < length cs \<longrightarrow>
         counter_field (packets (snd (run cs d)) ! k) = nat ((counter d + 1 + int k) mod 65536)) \<and>
      (\<forall>k. Suc k < length cs \<longrightarrow>
         counter_field (packets (snd (run cs d)) ! Suc k) =
           (counter_field (packets (snd (run cs d)) ! k) + 1) mod 65536) \<and>
      (\<forall>i j. i < j \<and> j < length cs \<and> j - i < 65536 \<longrightarrow>
         counter_field (packets (snd (run cs d)) ! i) \<noteq>
         counter_field (packets (snd (run cs d)) ! j)))"
proof (intro conjI impI)
  assume a: "deviceType d = LED_NET_WF \<and> characteristic d = Some ch"
  then obtain pkt d' where
    e: "exec c d = (d', [WriteValueWithoutResponse ch pkt])" and
    f: "counter_field pkt = nat ((counter d + 1) mod 65536)" and
    c: "counter d' = counter d + 1"
    using exec_LedNetWf [of d ch c] by blast
  show "length (packets (snd (exec c d))) = 1" using e by simp
  show "counter (fst (exec c d)) = counter d + 1" using e c by simp
  show "counter_field (hd (packets (snd (exec c d)))) = nat ((counter d + 1) mod 65536)"
    using e f by simp
next
  assume "deviceType d \<noteq> LED_NET_WF"
  then show "counter (fst (exec c d)) = counter d" "counter (fst (run cs d)) = counter d"
    by (simp_all add: exec_not_LedNetWf run_not_LedNetWf)
next
  assume a: "deviceType d = LED_NET_WF \<and> characteristic d = Some ch"
  let ?ps = "packets (snd (run cs d))"
  from a run_LedNetWf [of d ch cs] have
    cnt: "counter (fst (run cs d)) = counter d + int (length cs)" and
    m: "map counter_field ?ps = map (\<lambda>k. nat ((counter d + 1 + int k) mod 65536)) [0..<length cs]"
    by simp_all
  from m have len: "length ?ps = length cs"
    by (metis length_map length_upt minus_nat.diff_0)
  have nth: "counter_field (?ps ! k) = nat ((counter d + 1 + int k) mod 65536)"
    if "k < length cs" for k
  proof -
    have "counter_field (?ps ! k) = map counter_field ?ps ! k"
      using that len by simp
    also have "\<dots> = nat ((counter d + 1 + int k) mod 65536)"
      unfolding m using that by simp
    finally show ?thesis .
  qed
  show "length ?ps = length cs" by (rule len)
  show "counter (fst (run cs d)) = counter d + int (length cs)" by (rule cnt)
  show "\<forall>k. k < length cs \<longrightarrow>
         counter_field (?ps ! k) = nat ((counter d + 1 + int k) mod 65536)"
    using nth by blast
  show "\<forall>k. Suc k < length cs \<longrightarrow>
         counter_field (?ps ! Suc k) = (counter_field (?ps ! k) + 1) mod 65536"
  proof (intro allI impI)
    fix k assume k: "Suc k < length cs"
    then have "k < length cs" by simp
    with k nth have
      "counter_field (?ps ! Suc k) = nat ((counter d + 1 + int k + 1) mod 65536)"
      "counter_field (?ps ! k) = nat ((counter d + 1 + int k) mod 65536)"
      by (simp_all add: add.commute add.left_commute)
    then show "counter_field (?ps ! Suc k) = (counter_field (?ps ! k) + 1) mod 65536"
      using field_succ [of "counter d + 1 + int k"] by simp
  qed
  show "\<forall>i j. i < j \<and> j < length cs \<and> j - i < 65536 \<longrightarrow>
         counter_field (?ps ! i) \<noteq> counter_field (?ps ! j)"
  proof (intro allI impI)
    fix i j assume ij: "i < j \<and> j < length cs \<and> j - i < 65536"
    then have "i < length cs" by simp
    with ij nth have
      "counter_field (?ps ! i) = nat ((counter d + 1 + int i) mod 65536)"
      "counter_field (?ps ! j) = nat ((counter d + 1 + int j) mod 65536)"
      by simp_all
    then show "counter_field (?ps ! i) \<noteq> counter_field (?ps ! j)"
      using field_distinct [of i j "counter d"] ij by simp
  qed
qed

text \<open>
  Witness for C5: three commands from the counter 65534 carry 65535, 0 and 1, so the
  field wraps; the same commands on a Keepsmile device leave the counter at 0.
\<close>

theorem FamilyB_send_counter_witness:
  "deviceType (new_Device\<lparr>deviceType := LED_NET_WF, counter := 65534, characteristic := Some 7\<rparr>)
     = LED_NET_WF \<and>
   characteristic (new_Device\<lparr>deviceType := LED_NET_WF, counter := 65534, characteristic := Some 7\<rparr>)
     = Some 7 \<and>
   counter (fst (exec (SetSwitch 1)
     (new_Device\<lparr>deviceType := LED_NET_WF, counter := 65534, characteristic := Some 7\<rparr>))) = 65535 \<and>
   counter (fst (run [SetSwitch 1, SetMode 2, SetSpeed 3]
     (new_Device\<lparr>deviceType := LED_NET_WF, counter := 65534, characteristic := Some 7\<rparr>))) = 65537 \<and>
   counter_field (packets (snd (run [SetSwitch 1, SetMode 2, SetSpeed 3]
     (new_Device\<lparr>deviceType := LED_NET_WF, counter := 65534, characteristic := Some 7\<rparr>))) ! 0) = 65535 \<and>
   counter_field (packets (snd (run [SetSwitch 1, SetMode 2, SetSpeed 3]
     (new_Device\<lparr>deviceType := LED_NET_WF, counter := 65534, characteristic := Some 7\<rparr>))) ! 1) = 0 \<and>
   counter_field (packets (snd (run [SetSwitch 1, SetMode 2, SetSpeed 3]
     (new_Device\<lparr>deviceType := LED_NET_WF, counter := 65534, characteristic := Some 7\<rparr>))) ! 0) \<noteq>
   counter_field (packets (snd (run [SetSwitch 1, SetMode 2, SetSpeed 3]
     (new_Device\<lparr>deviceType := LED_NET_WF, counter := 65534, characteristic := Some 7\<rparr>))) ! 2) \<and>
   deviceType (new_Device\<lparr>deviceType := KEEP_SMILE, characteristic := Some 7\<rparr>) \<noteq> LED_NET_WF \<and>
   counter (fst (run [SetSwitch 1, SetMode 2, SetSpeed 3]
     (new_Device\<lparr>deviceType := KEEP_SMILE, characteristic := Some 7\<rparr>))) = 0"
proof -
  let ?d = "new_Device\<lparr>deviceType := LED_NET_WF, counter := 65534, characteristic := Some 7\<rparr>"
  let ?k = "new_Device\<lparr>deviceType := KEEP_SMILE, characteristic := Some 7\<rparr>"
  let ?cs = "[SetSwitch 1, SetMode 2, SetSpeed 3]"
  have h: "deviceType ?d = LED_NET_WF \<and> characteristic ?d = Some 7"
    by (simp add: new_Device_def)
  have c: "counter ?d = 65534" "counter ?k = 0"
    by (simp_all add: new_Device_def)
  have hk: "deviceType ?k \<noteq> LED_NET_WF"
    by (simp add: new_Device_def)
  note B = FamilyB_send_counter [of ?d 7 "SetSwitch 1" ?cs]
  note K = FamilyB_send_counter [of ?k 7 "SetSwitch 1" ?cs]
  from B h have b1: "counter (fst (exec (SetSwitch 1) ?d)) = counter ?d + 1" by blast
  from B h have b2: "counter (fst (run ?cs ?d)) = counter ?d + int (length ?cs)" by blast
  from B h have b3: "\<forall>k. k < length ?cs \<longrightarrow>
         counter_field (packets (snd (run ?cs ?d)) ! k) = nat ((counter ?d + 1 + int k) mod 65536)"
    by blast
  from B h have b4: "\<forall>i j. i < j \<and> j < length ?cs \<and> j - i < 65536 \<longrightarrow>
         counter_field (packets (snd (run ?cs ?d)) ! i) \<noteq>
         counter_field (packets (snd (run ?cs ?d)) ! j)"
    by blast
  from K hk have k1: "counter (fst (run ?cs ?k)) = counter ?k" by blast
  from b3 [rule_format, of 0] b3 [rule_format, of 1] b4 [rule_format, of 0 2] b1 b2 k1 h hk
  show ?thesis
    unfolding c by simp
qed

text \<open>
  C6.  With a device selected and the GATT server connected, the candidates are tried in
  the order MagicStrip, LEDnetWF, Keepsmile, and the first one that resolves fixes the
  device type and the characteristic; the services of the later ones are not looked up.
  In particular, when the MagicStrip candidate resolves the device type is
  \<open>MAGIC_STRIP\<close>, whatever the LEDnetWF candidate would do.
\<close>

theorem negotiation_priority:
  assumes "requestDevice t = Inr (Some dev)" and "gattConnect t = Inr u"
  shows "(resolves t guidServiceMagicStrip guidCharacteristicMagicStrip = Inr ch \<longrightarrow>
            deviceType (fst (connect t oc od oe d)) = MAGIC_STRIP \<and>
            characteristic (fst (connect t oc od oe d)) = Some ch \<and>
            lookups (snd (connect t oc od oe d)) = [guidServiceMagicStrip]) \<and>
         (isl (resolves t guidServiceMagicStrip guidCharacteristicMagicStrip) \<and>
          resolves t guidServiceLedNetWf guidCharacteristicLedNetWf = Inr ch \<longrightarrow>
            deviceType (fst (connect t oc od oe d)) = LED_NET_WF \<and>
            characteristic (fst (connect t oc od oe d)) = Some ch \<and>
            lookups (snd (connect t oc od oe d)) = [guidServiceMagicStrip, guidServiceLedNetWf]) \<and>
         (isl (resolves t guidServiceMagicStrip guidCharacteristicMagicStrip) \<and>
          isl (resolves t guidServiceLedNetWf guidCharacteristicLedNetWf) \<and>
          resolves t guidServiceKeepsmile guidCharacteristicKeepsmile = Inr ch \<longrightarrow>
            deviceType (fst (connect t oc od oe d)) = KEEP_SMILE \<and>
            characteristic (fst (connect t oc od oe d)) = Some ch \<and>
            lookups (snd (connect t oc od oe d)) =
              [guidServiceMagicStrip, guidServiceLedNetWf, guidServiceKeepsmile])"
proof (intro conjI impI)
  let ?d = "d\<lparr>onConnect := oc, onDisconnect := od, onError := oe\<rparr>"
  note c = connect_negotiates [OF assms, of oc od oe d]
  {
    assume "resolves t guidServiceMagicStrip guidCharacteristicMagicStrip = Inr ch"
    from negotiate_first [OF this, of ?d] obtain evs where
      "negotiate t ?d = (None, ?d\<lparr>deviceType := MAGIC_STRIP, characteristic := Some ch\<rparr>, evs)"
      "lookups evs = [guidServiceMagicStrip]"
      by blast
    then show "deviceType (fst (connect t oc od oe d)) = MAGIC_STRIP"
      "characteristic (fst (connect t oc od oe d)) = Some ch"
      "lookups (snd (connect t oc od oe d)) = [guidServiceMagicStrip]"
      unfolding c by (simp_all add: lookups_append split: option.splits)
  }
  {
    assume "isl (resolves t guidServiceMagicStrip guidCharacteristicMagicStrip) \<and>
          resolves t guidServiceLedNetWf guidCharacteristicLedNetWf = Inr ch"
    then obtain e1 where
      "resolves t guidServiceMagicStrip guidCharacteristicMagicStrip = Inl e1"
      "resolves t guidServiceLedNetWf guidCharacteristicLedNetWf = Inr ch"
      by (auto simp: isl_def)
    from negotiate_second [OF this, of ?d] obtain d' evs where
      "negotiate t ?d = (None, d', evs)" "deviceType d' = LED_NET_WF"
      "characteristic d' = Some ch"
      "lookups evs = [guidServiceMagicStrip, guidServiceLedNetWf]"
      by blast
    then show "deviceType (fst (connect t oc od oe d)) = LED_NET_WF"
      "characteristic (fst (connect t oc od oe d)) = Some ch"
      "lookups (snd (connect t oc od oe d)) = [guidServiceMagicStrip, guidServiceLedNetWf]"
      unfolding c by (simp_all add: lookups_append split: option.splits)
  }
  {
    assume "isl (resolves t guidServiceMagicStrip guidCharacteristicMagicStrip) \<and>
          isl (resolves t guidServiceLedNetWf guidCharacteristicLedNetWf) \<and>
          resolves t guidServiceKeepsmile guidCharacteristicKeepsmile = Inr ch"
    then obtain e1 e2 where
      "resolves t guidServiceMagicStrip guidCharacteristicMagicStrip = Inl e1"
      "resolves t guidServiceLedNetWf guidCharacteristicLedNetWf = Inl e2"
      "resolves t guidServiceKeepsmile guidCharacteristicKeepsmile = Inr ch"
      by (auto simp: isl_def)
    from negotiate_third [OF this, of ?d] obtain d' evs where
      "negotiate t ?d = (None, d', evs)" "deviceType d' = KEEP_SMILE"
      "characteristic d' = Some ch"
      "lookups evs = [guidServiceMagicStrip, guidServiceLedNetWf, guidServiceKeepsmile]"
      by blast
    then show "deviceType (fst (connect t oc od oe d)) = KEEP_SMILE"
      "characteristic (fst (connect t oc od oe d)) = Some ch"
      "lookups (snd (connect t oc od oe d)) =
              [guidServiceMagicStrip, guidServiceLedNetWf, guidServiceKeepsmile]"
      unfolding c by (simp_all add: lookups_append split: option.splits)
  }
qed

text \<open>
  Witness for C6: a transport on which MagicStrip and LEDnetWF both resolve, one on which
  the MagicStrip service has no characteristic and LEDnetWF resolves, and one with
  Keepsmile alone.
\<close>

theorem negotiation_priority_witness:
  "requestDevice (fake_transport [(guidServiceMagicStrip, 1), (guidServiceLedNetWf, 2)]
      [((1, guidCharacteristicMagicStrip), 11), ((2, guidCharacteristicLedNetWf), 12)])
     = Inr (Some ''LED'') \<and>
   gattConnect (fake_transport [(guidServiceMagicStrip, 1), (guidServiceLedNetWf, 2)]
      [((1, guidCharacteristicMagicStrip), 11), ((2, guidCharacteristicLedNetWf), 12)])
     = Inr () \<and>
   resolves (fake_transport [(guidServiceMagicStrip, 1), (guidServiceLedNetWf, 2)]
      [((1, guidCharacteristicMagicStrip), 11), ((2, guidCharacteristicLedNetWf), 12)])
      guidServiceMagicStrip guidCharacteristicMagicStrip = Inr 11 \<and>
   resolves (fake_transport [(guidServiceMagicStrip, 1), (guidServiceLedNetWf, 2)]
      [((1, guidCharacteristicMagicStrip), 11), ((2, guidCharacteristicLedNetWf), 12)])
      guidServiceLedNetWf guidCharacteristicLedNetWf = Inr 12 \<and>
   deviceType (fst (connect (fake_transport [(guidServiceMagicStrip, 1), (guidServiceLedNetWf, 2)]
      [((1, guidCharacteristicMagicStrip), 11), ((2, guidCharacteristicLedNetWf), 12)])
      None None None new_Device)) = MAGIC_STRIP \<and>
   characteristic (fst (connect (fake_transport [(guidServiceMagicStrip, 1), (guidServiceLedNetWf, 2)]
      [((1, guidCharacteristicMagicStrip), 11), ((2, guidCharacteristicLedNetWf), 12)])
      None None None new_Device)) = Some 11 \<and>
   isl (resolves (fake_transport [(guidServiceMagicStrip, 1), (guidServiceLedNetWf, 2)]
      [((2, guidCharacteristicLedNetWf), 12)])
      guidServiceMagicStrip guidCharacteristicMagicStrip) \<and>
   resolves (fake_transport [(guidServiceMagicStrip, 1), (guidServiceLedNetWf, 2)]
      [((2, guidCharacteristicLedNetWf), 12)])
      guidServiceLedNetWf guidCharacteristicLedNetWf = Inr 12 \<and>
   deviceType (fst (connect (fake_transport [(guidServiceMagicStrip, 1), (guidServiceLedNetWf, 2)]
      [((2, guidCharacteristicLedNetWf), 12)]) None None None new_Device)) = LED_NET_WF \<and>
   characteristic (fst (connect (fake_transport [(guidServiceMagicStrip, 1), (guidServiceLedNetWf, 2)]
      [((2, guidCharacteristicLedNetWf), 12)]) None None None new_Device)) = Some 12 \<and>
   isl (resolves (fake_transport [(guidServiceKeepsmile, 3)] [((3, guidCharacteristicKeepsmile), 13)])
      guidServiceMagicStrip guidCharacteristicMagicStrip) \<and>
   isl (resolves (fake_transport [(guidServiceKeepsmile, 3)] [((3, guidCharacteristicKeepsmile), 13)])
      guidServiceLedNetWf guidCharacteristicLedNetWf) \<and>
   resolves (fake_transport [(guidServiceKeepsmile, 3)] [((3, guidCharacteristicKeepsmile), 13)])
      guidServiceKeepsmile guidCharacteristicKeepsmile = Inr 13 \<and>
   deviceType (fst (connect (fake_transport [(guidServiceKeepsmile, 3)]
      [((3, guidCharacteristicKeepsmile), 13)]) None None None new_Device)) = KEEP_SMILE \<and>
   lookups (snd (connect (fake_transport [(guidServiceKeepsmile, 3)]
      [((3, guidCharacteristicKeepsmile), 13)]) None None None new_Device)) =
     [guidServiceMagicStrip, guidServiceLedNetWf, guidServiceKeepsmile]"
proof -
  let ?ab = "fake_transport [(guidServiceMagicStrip, 1), (guidServiceLedNetWf, 2)]
      [((1, guidCharacteristicMagicStrip), 11), ((2, guidCharacteristicLedNetWf), 12)]"
  let ?b = "fake_transport [(guidServiceMagicStrip, 1), (guidServiceLedNetWf, 2)]
      [((2, guidCharacteristicLedNetWf), 12)]"
  let ?c = "fake_transport [(guidServiceKeepsmile, 3)] [((3, guidCharacteristicKeepsmile), 13)]"
  have rab: "requestDevice ?ab = Inr (Some ''LED'')" "gattConnect ?ab = Inr ()"
    and rb: "requestDevice ?b = Inr (Some ''LED'')" "gattConnect ?b = Inr ()"
    and rc: "requestDevice ?c = Inr (Some ''LED'')" "gattConnect ?c = Inr ()"
    by (simp_all add: fake_transport_def)
  have hab: "resolves ?ab guidServiceMagicStrip guidCharacteristicMagicStrip = Inr 11"
    "resolves ?ab guidServiceLedNetWf guidCharacteristicLedNetWf = Inr 12"
    by (simp_all add: fake_transport_def resolves_def guid_defs)
  have hb: "isl (resolves ?b guidServiceMagicStrip guidCharacteristicMagicStrip)"
    "resolves ?b guidServiceLedNetWf guidCharacteristicLedNetWf = Inr 12"
    by (simp_all add: fake_transport_def resolves_def guid_defs)
  have hc: "isl (resolves ?c guidServiceMagicStrip guidCharacteristicMagicStrip)"
    "isl (resolves ?c guidServiceLedNetWf guidCharacteristicLedNetWf)"
    "resolves ?c guidServiceKeepsmile guidCharacteristicKeepsmile = Inr 13"
    by (simp_all add: fake_transport_def resolves_def guid_defs)
  from negotiation_priority [OF rab, of 11 None None None new_Device] hab
  have 1: "deviceType (fst (connect ?ab None None None new_Device)) = MAGIC_STRIP"
    "characteristic (fst (connect ?ab None None None new_Device)) = Some 11"
    by blast+
  from negotiation_priority [OF rb, of 12 None None None new_Device] hb
  have 2: "deviceType (fst (connect ?b None None None new_Device)) = LED_NET_WF"
    "characteristic (fst (connect ?b None None None new_Device)) = Some 12"
    by blast+
  from negotiation_priority [OF rc, of 13 None None None new_Device] hc
  have 3: "deviceType (fst (connect ?c None None None new_Device)) = KEEP_SMILE"
    "lookups (snd (connect ?c None None None new_Device)) =
       [guidServiceMagicStrip, guidServiceLedNetWf, guidServiceKeepsmile]"
    by blast+
  from rab hab hb hc 1 2 3 show ?thesis by blast
qed

text \<open>
  C7.  Every packet written by a command on a bound LEDnetWF device is a frame as the
  specification describes it, built on the counter after the increment: colour with the
  selector \<open>0x0B, 0x3B\<close> and the payload \<open>0xA1\<close>, the three bytes of the HSV triple
  and seven zero bytes; switch with the same selector and \<open>0x23\<close> (on) or \<open>0x24\<close>
  (off) and ten zero bytes; mode, brightness and speed with the selector
  \<open>0x0B, 0x38\<close> and the payload last mode, last speed, last brightness.
\<close>

theorem FamilyB_packet_structure:
  assumes "deviceType d = LED_NET_WF" and "characteristic d = Some ch"
  shows "(\<exists>chk. setRGB r g b d =
            (d\<lparr>counter := counter d + 1\<rparr>,
             [WriteValueWithoutResponse ch
                (FamilyB_frame (counter d + 1) [0x0B, 0x3B]
                   ([0xA1] @ map ToUint8 (rgb2hsv r g b) @ replicate 7 0) chk)])) \<and>
         length (rgb2hsv r g b) = 3 \<and>
         (\<exists>chk. setSwitch s d =
            (d\<lparr>counter := counter d + 1\<rparr>,
             [WriteValueWithoutResponse ch
                (FamilyB_frame (counter d + 1) [0x0B, 0x3B]
                   ([if s > 0 then 0x23 else 0x24] @ replicate 10 0) chk)])) \<and>
         (\<exists>chk. setMode m d =
            (d\<lparr>lastMode := m, counter := counter d + 1\<rparr>,
             [WriteValueWithoutResponse ch
                (FamilyB_frame (counter d + 1) [0x0B, 0x38]
                   [ToUint8 m, ToUint8 (lastSpeed d), ToUint8 (lastBrightness d)] chk)])) \<and>
         (\<exists>chk. setBrightness v d =
            (d\<lparr>lastBrightness := v, counter := counter d + 1\<rparr>,
             [WriteValueWithoutResponse ch
                (FamilyB_frame (counter d + 1) [0x0B, 0x38]
                   [ToUint8 (lastMode d), ToUint8 (lastSpeed d), ToUint8 v] chk)])) \<and>
         (\<exists>chk. setSpeed w d =
            (d\<lparr>lastSpeed := w, counter := counter d + 1\<rparr>,
             [WriteValueWithoutResponse ch
                (FamilyB_frame (counter d + 1) [0x0B, 0x38]
                   [ToUint8 (lastMode d), ToUint8 w, ToUint8 (lastBrightness d)] chk)]))"
proof (intro conjI)
  show "\<exists>chk. setRGB r g b d =
            (d\<lparr>counter := counter d + 1\<rparr>,
             [WriteValueWithoutResponse ch
                (FamilyB_frame (counter d + 1) [0x0B, 0x3B]
                   ([0xA1] @ map ToUint8 (rgb2hsv r g b) @ replicate 7 0) chk)])"
    by (rule exI [of _ 0])
       (simp add: LedNetWf_packets(1) [OF assms] FamilyB_frame_eq rgb2hsv_length del: of_int_add)
  show "length (rgb2hsv r g b) = 3"
    by (rule rgb2hsv_length)
  show "\<exists>chk. setSwitch s d =
            (d\<lparr>counter := counter d + 1\<rparr>,
             [WriteValueWithoutResponse ch
                (FamilyB_frame (counter d + 1) [0x0B, 0x3B]
                   ([if s > 0 then 0x23 else 0x24] @ replicate 10 0) chk)])"
    by (rule exI [of _ 0])
       (simp add: LedNetWf_packets(2) [OF assms] FamilyB_frame_eq del: of_int_add)
  show "\<exists>chk. setMode m d =
            (d\<lparr>lastMode := m, counter := counter d + 1\<rparr>,
             [WriteValueWithoutResponse ch
                (FamilyB_frame (counter d + 1) [0x0B, 0x38]
                   [ToUint8 m, ToUint8 (lastSpeed d), ToUint8 (lastBrightness d)] chk)])"
    by (rule exI [of _ 0])
       (simp add: LedNetWf_packets(3) [OF assms] FamilyB_frame_eq del: of_int_add)
  show "\<exists>chk. setBrightness v d =
            (d\<lparr>lastBrightness := v, counter := counter d + 1\<rparr>,
             [WriteValueWithoutResponse ch
                (FamilyB_frame (counter d + 1) [0x0B, 0x38]
                   [ToUint8 (lastMode d), ToUint8 (lastSpeed d), ToUint8 v] chk)])"
    by (rule exI [of _ 0])
       (simp add: LedNetWf_packets(4) [OF assms] FamilyB_frame_eq del: of_int_add)
  show "\<exists>chk. setSpeed w d =
            (d\<lparr>lastSpeed := w, counter := counter d + 1\<rparr>,
             [WriteValueWithoutResponse ch
                (FamilyB_frame (counter d + 1) [0x0B, 0x38]
                   [ToUint8 (lastMode d), ToUint8 w, ToUint8 (lastBrightness d)] chk)])"
    by (rule exI [of _ 0])
       (simp add: LedNetWf_packets(5) [OF assms] FamilyB_frame_eq del: of_int_add)
qed

text \<open>
  Witness for C7: the colour packets of pure green and of \<open>(5, 5, 50)\<close>, whose saturation
  89.99999999999999 is stored as 89, and the combined packet of \<open>setSpeed(40)\<close>, on a
  new device bound as LEDnetWF, each without its last byte.
\<close>

theorem FamilyB_packet_structure_witness:
  "deviceType (new_Device\<lparr>deviceType := LED_NET_WF, characteristic := Some 7\<rparr>) = LED_NET_WF \<and>
   characteristic (new_Device\<lparr>deviceType := LED_NET_WF, characteristic := Some 7\<rparr>) = Some 7 \<and>
   butlast (hd (packets (snd (setRGB 0 255 0
      (new_Device\<lparr>deviceType := LED_NET_WF, characteristic := Some 7\<rparr>))))) =
     [0, 1, 0x80, 0, 0, 13, 14, 0x0B, 0x3B, 0xA1, 0, 100, 100, 0, 0, 0, 0, 0, 0, 0] \<and>
   butlast (hd (packets (snd (setRGB 5 5 50
      (new_Device\<lparr>deviceType := LED_NET_WF, characteristic := Some 7\<rparr>))))) =
     [0, 1, 0x80, 0, 0, 13, 14, 0x0B, 0x3B, 0xA1, 0x78, 0x59, 0x13, 0, 0, 0, 0, 0, 0, 0] \<and>
   length (hd (packets (snd (setRGB 5 5 50
      (new_Device\<lparr>deviceType := LED_NET_WF, characteristic := Some 7\<rparr>))))) = 21 \<and>
   butlast (hd (packets (snd (setSpeed 40
      (new_Device\<lparr>deviceType := LED_NET_WF, characteristic := Some 7\<rparr>))))) =
     [0, 1, 0x80, 0, 0, 5, 6, 0x0B, 0x38, 1, 40, 100] \<and>
   length (hd (packets (snd (setSpeed 40
      (new_Device\<lparr>deviceType := LED_NET_WF, characteristic := Some 7\<rparr>))))) = 13"
proof -
  let ?d = "new_Device\<lparr>deviceType := LED_NET_WF, characteristic := Some 7\<rparr>"
  have h1: "deviceType ?d = LED_NET_WF" and h2: "characteristic ?d = Some 7"
    by (simp_all add: new_Device_def)
  have green: "map ToUint8 (rgb2hsv 0 255 0) = [0, 100, 100]"
    by (simp add: rgb2hsv_green ToUint8_simps)
  have dark: "map ToUint8 (rgb2hsv 5 5 50) = [0x78, 0x59, 0x13]"
    by (simp add: rgb2hsv_5_5_50 ToUint8_def)
  from FamilyB_packet_structure [OF h1 h2, of 0 255 0 1 1 1 40] obtain chk1 where
    "setRGB 0 255 0 ?d =
       (?d\<lparr>counter := counter ?d + 1\<rparr>,
        [WriteValueWithoutResponse 7
           (FamilyB_frame (counter ?d + 1) [0x0B, 0x3B]
              ([0xA1] @ map ToUint8 (rgb2hsv 0 255 0) @ replicate 7 0) chk1)])"
    by blast
  then have a: "hd (packets (snd (setRGB 0 255 0 ?d))) =
      [0, 1, 0x80, 0, 0, 13, 14, 0x0B, 0x3B, 0xA1, 0, 100, 100, 0, 0, 0, 0, 0, 0, 0, chk1]"
    by (simp add: FamilyB_frame_def green replicate_7 new_Device_def)
  from FamilyB_packet_structure [OF h1 h2, of 5 5 50 1 1 1 40] obtain chk2 where
    "setRGB 5 5 50 ?d =
       (?d\<lparr>counter := counter ?d + 1\<rparr>,
        [WriteValueWithoutResponse 7
           (FamilyB_frame (counter ?d + 1) [0x0B, 0x3B]
              ([0xA1] @ map ToUint8 (rgb2hsv 5 5 50) @ replicate 7 0) chk2)])"
    by blast
  then have b: "hd (packets (snd (setRGB 5 5 50 ?d))) =
      [0, 1, 0x80, 0, 0, 13, 14, 0x0B, 0x3B, 0xA1, 0x78, 0x59, 0x13, 0, 0, 0, 0, 0, 0, 0, chk2]"
    by (simp add: FamilyB_frame_def dark replicate_7 new_Device_def)
  from FamilyB_packet_structure [OF h1 h2, of 0 255 0 1 1 1 40] obtain chk3 where
    "setSpeed 40 ?d =
       (?d\<lparr>lastSpeed := 40, counter := counter ?d + 1\<rparr>,
        [WriteValueWithoutResponse 7
           (FamilyB_frame (counter ?d + 1) [0x0B, 0x38]
              [ToUint8 (lastMode ?d), ToUint8 40, ToUint8 (lastBrightness ?d)] chk3)])"
    by blast
  then have c: "hd (packets (snd (setSpeed 40 ?d))) =
      [0, 1, 0x80, 0, 0, 5, 6, 0x0B, 0x38, 1, 40, 100, chk3]"
    by (simp add: FamilyB_frame_def ToUint8_simps new_Device_def)
  show ?thesis
    unfolding a b c using h1 h2 by simp
qed

text \<open>
  C8.  Every packet written by a command on a bound Keepsmile device is the fixed
  pattern of its command, with the arguments and the cached fields stored as bytes;
  the device is returned with the cache updated and the counter untouched, and the
  packet has neither a counter nor a checksum byte.
\<close>

theorem Keepsmile_packet_patterns:
  assumes "deviceType d = KEEP_SMILE" and "characteristic d = Some ch"
  shows "setRGB r g b d =
           (d, [WriteValueWithoutResponse ch
                  [0x5A, 0x00, 0x01, ToUint8 r, ToUint8 g, ToUint8 b, 0x00,
                   ToUint8 (lastBrightness d), 0x00, 0xA5]]) \<and>
         setSwitch s d =
           (d, [WriteValueWithoutResponse ch
                  [0x5B, (if s > 0 then 0xF0 else 0x0F), 0x00, 0xB5]]) \<and>
         setMode m d =
           (d\<lparr>lastMode := m\<rparr>,
            [WriteValueWithoutResponse ch
               [0x5C, 0x00, ToUint8 (m + 128), ToUint8 (lastSpeed d),
                ToUint8 (lastBrightness d), 0x00, 0xC5]]) \<and>
         setBrightness v d =
           (d\<lparr>lastBrightness := v\<rparr>,
            [WriteValueWithoutResponse ch
               [0x5C, 0x00, ToUint8 (lastMode d + 128), ToUint8 (lastSpeed d),
                ToUint8 v, 0x00, 0xC5]]) \<and>
         setSpeed w d =
           (d\<lparr>lastSpeed := w\<rparr>,
            [WriteValueWithoutResponse ch
               [0x5C, 0x00, ToUint8 (lastMode d + 128), ToUint8 w,
                ToUint8 (lastBrightness d), 0x00, 0xC5]])"
  using Keepsmile_packets [OF assms] by simp

text \<open>
  Witness for C8: the colour (10, 20, 30), both switch values and mode 5 on a new
  device bound as Keepsmile.
\<close>

theorem Keepsmile_packet_patterns_witness:
  "deviceType (new_Device\<lparr>deviceType := KEEP_SMILE, characteristic := Some 7\<rparr>) = KEEP_SMILE \<and>
   characteristic (new_Device\<lparr>deviceType := KEEP_SMILE, characteristic := Some 7\<rparr>) = Some 7 \<and>
   snd (setRGB 10 20 30 (new_Device\<lparr>deviceType := KEEP_SMILE, characteristic := Some 7\<rparr>)) =
     [WriteValueWithoutResponse 7 [0x5A, 0x00, 0x01, 10, 20, 30, 0x00, 100, 0x00, 0xA5]] \<and>
   snd (setSwitch 1 (new_Device\<lparr>deviceType := KEEP_SMILE, characteristic := Some 7\<rparr>)) =
     [WriteValueWithoutResponse 7 [0x5B, 0xF0, 0x00, 0xB5]] \<and>
   snd (setSwitch 0 (new_Device\<lparr>deviceType := KEEP_SMILE, characteristic := Some 7\<rparr>)) =
     [WriteValueWithoutResponse 7 [0x5B, 0x0F, 0x00, 0xB5]] \<and>
   snd (setMode 5 (new_Device\<lparr>deviceType := KEEP_SMILE, characteristic := Some 7\<rparr>)) =
     [WriteValueWithoutResponse 7 [0x5C, 0x00, 133, 100, 100, 0x00, 0xC5]]"
proof -
  let ?d = "new_Device\<lparr>deviceType := KEEP_SMILE, characteristic := Some 7\<rparr>"
  have h1: "deviceType ?d = KEEP_SMILE" and h2: "characteristic ?d = Some 7"
    by (simp_all add: new_Device_def)
  have c: "lastBrightness ?d = 100" "lastSpeed ?d = 100" "lastMode ?d = 1"
    by (simp_all add: new_Device_def)
  show ?thesis
    using h1 h2 Keepsmile_packet_patterns [OF h1 h2, of 10 20 30 1 5 50 60]
      Keepsmile_packet_patterns [OF h1 h2, of 10 20 30 0 5 50 60]
    unfolding c by (simp add: ToUint8_simps)
qed

text \<open>
  C9.  While the device type is \<open>UNKNOWN\<close> or no characteristic is bound, each of the
  five commands returns without any event: nothing is written, no callback is called,
  and no exception is raised (the commands are total).
\<close>

theorem commands_before_connect_write_nothing:
  assumes "deviceType d = UNKNOWN \<or> characteristic d = None"
  shows "snd (setRGB r g b d) = [] \<and> snd (setSwitch s d) = [] \<and> snd (setMode m d) = [] \<and>
         snd (setBrightness v d) = [] \<and> snd (setSpeed w d) = []"
  using assms
  by (auto simp: setRGB_def setSwitch_def setMode_def setBrightness_def setSpeed_def Let_def
      sendLedNetWf_unbound sendMagicStrip_unbound sendKeepsmile_unbound)

text \<open>
  Witness for C9: the five commands on a new device.
\<close>

theorem commands_before_connect_witness:
  "snd (setRGB 1 2 3 new_Device) = [] \<and> snd (setSwitch 1 new_Device) = [] \<and>
   snd (setMode 5 new_Device) = [] \<and> snd (setBrightness 50 new_Device) = [] \<and>
   snd (setSpeed 60 new_Device) = []"
proof -
  have h: "deviceType new_Device = UNKNOWN \<or> characteristic new_Device = None"
    by (simp add: new_Device_def)
  show ?thesis
    using commands_before_connect_write_nothing [OF h, of 1 2 3 1 5 50 60] by simp
qed

text \<open>
  C10.  \<open>setMode\<close>, \<open>setBrightness\<close> and \<open>setSpeed\<close> always store their argument
  in the cache.  Without a session (device type \<open>UNKNOWN\<close> or no characteristic) that
  is all they do: every other field is unchanged and nothing is written.  \<open>connect\<close>
  does not touch the three cached fields.  So a brightness and a speed set before a
  connection appear in the first combined packet after it, for LEDnetWF and for
  Keepsmile.
\<close>

theorem setters_overwrite_cache:
  "lastMode (fst (setMode m d)) = m \<and>
   lastBrightness (fst (setBrightness v d)) = v \<and>
   lastSpeed (fst (setSpeed w d)) = w \<and>
   (deviceType d = UNKNOWN \<or> characteristic d = None \<longrightarrow>
      setMode m d = (d\<lparr>lastMode := m\<rparr>, []) \<and>
      setBrightness v d = (d\<lparr>lastBrightness := v\<rparr>, []) \<and>
      setSpeed w d = (d\<lparr>lastSpeed := w\<rparr>, [])) \<and>
   lastMode (fst (connect t oc od oe d)) = lastMode d \<and>
   lastBrightness (fst (connect t oc od oe d)) = lastBrightness d \<and>
   lastSpeed (fst (connect t oc od oe d)) = lastSpeed d \<and>
   ((deviceType d = UNKNOWN \<or> characteristic d = None) \<and>
    deviceType (fst (connect t oc od oe (fst (setSpeed w (fst (setBrightness v d)))))) = LED_NET_WF \<and>
    characteristic (fst (connect t oc od oe (fst (setSpeed w (fst (setBrightness v d)))))) = Some ch \<longrightarrow>
      snd (setMode m (fst (connect t oc od oe (fst (setSpeed w (fst (setBrightness v d))))))) =
        [WriteValueWithoutResponse ch
           [word_of_int ((counter d + 1) div 256), word_of_int (counter d + 1),
            0x80, 0, 0, 5, 6, 0x0B, 0x38, ToUint8 m, ToUint8 w, ToUint8 v, 0]]) \<and>
   ((deviceType d = UNKNOWN \<or> characteristic d = None) \<and>
    deviceType (fst (connect t oc od oe (fst (setSpeed w (fst (setBrightness v d)))))) = KEEP_SMILE \<and>
    characteristic (fst (connect t oc od oe (fst (setSpeed w (fst (setBrightness v d)))))) = Some ch \<longrightarrow>
      snd (setMode m (fst (connect t oc od oe (fst (setSpeed w (fst (setBrightness v d))))))) =
        [WriteValueWithoutResponse ch
           [0x5C, 0x00, ToUint8 (m + 128), ToUint8 w, ToUint8 v, 0x00, 0xC5]])"
proof -
  have over: "lastMode (fst (setMode m d)) = m" "lastBrightness (fst (setBrightness v d)) = v"
    "lastSpeed (fst (setSpeed w d)) = w"
    by (cases "characteristic d";
        simp add: setMode_def setBrightness_def setSpeed_def Let_def
          sendMagicStrip_def sendLedNetWf_def sendKeepsmile_def)+
  have unb: "setMode m' d' = (d'\<lparr>lastMode := m'\<rparr>, []) \<and>
      setBrightness v' d' = (d'\<lparr>lastBrightness := v'\<rparr>, []) \<and>
      setSpeed w' d' = (d'\<lparr>lastSpeed := w'\<rparr>, [])"
    if "deviceType d' = UNKNOWN \<or> characteristic d' = None" for d' m' v' w'
    using that
    by (auto simp: setMode_def setBrightness_def setSpeed_def Let_def
          sendMagicStrip_def sendLedNetWf_def sendKeepsmile_def)
  let ?d1 = "fst (setSpeed w (fst (setBrightness v d)))"
  let ?d2 = "fst (connect t oc od oe ?d1)"
  have d1: "?d1 = d\<lparr>lastBrightness := v, lastSpeed := w\<rparr>"
    if u: "deviceType d = UNKNOWN \<or> characteristic d = None"
  proof -
    have a: "fst (setBrightness v d) = d\<lparr>lastBrightness := v\<rparr>"
      using unb [OF u] by simp
    have "deviceType (d\<lparr>lastBrightness := v\<rparr>) = UNKNOWN \<or>
          characteristic (d\<lparr>lastBrightness := v\<rparr>) = None"
      using u by simp
    from unb [OF this] show ?thesis unfolding a by simp
  qed
  have d2: "lastMode ?d2 = lastMode d \<and> lastBrightness ?d2 = v \<and> lastSpeed ?d2 = w \<and>
            counter ?d2 = counter d"
    if u: "deviceType d = UNKNOWN \<or> characteristic d = None"
    by (simp add: connect_keeps d1 [OF u])
  have B: "snd (setMode m ?d2) =
        [WriteValueWithoutResponse ch
           [word_of_int ((counter d + 1) div 256), word_of_int (counter d + 1),
            0x80, 0, 0, 5, 6, 0x0B, 0x38, ToUint8 m, ToUint8 w, ToUint8 v, 0]]"
    if u: "deviceType d = UNKNOWN \<or> characteristic d = None"
      and t: "deviceType ?d2 = LED_NET_WF" "characteristic ?d2 = Some ch"
    using d2 [OF u] by (simp add: LedNetWf_packets(3) [OF t] del: of_int_add)
  have K: "snd (setMode m ?d2) =
        [WriteValueWithoutResponse ch
           [0x5C, 0x00, ToUint8 (m + 128), ToUint8 w, ToUint8 v, 0x00, 0xC5]]"
    if u: "deviceType d = UNKNOWN \<or> characteristic d = None"
      and t: "deviceType ?d2 = KEEP_SMILE" "characteristic ?d2 = Some ch"
    using d2 [OF u] by (simp add: Keepsmile_packets(3) [OF t])
  show ?thesis
    using over unb [of d m v w] connect_keeps(1-3) [of t oc od oe d] B K
    by blast
qed

text \<open>
  Witness for C10: brightness 50 and speed 20 set on a new device, a connection that
  negotiates LEDnetWF (or Keepsmile), then \<open>setMode(3)\<close>.
\<close>

theorem setters_overwrite_cache_witness:
  "(deviceType new_Device = UNKNOWN \<or> characteristic new_Device = None) \<and>
   setBrightness 50 new_Device = (new_Device\<lparr>lastBrightness := 50\<rparr>, []) \<and>
   deviceType (fst (connect
       (fake_transport [(guidServiceLedNetWf, 2)] [((2, guidCharacteristicLedNetWf), 12)])
       None None None (fst (setSpeed 20 (fst (setBrightness 50 new_Device)))))) = LED_NET_WF \<and>
   characteristic (fst (connect
       (fake_transport [(guidServiceLedNetWf, 2)] [((2, guidCharacteristicLedNetWf), 12)])
       None None None (fst (setSpeed 20 (fst (setBrightness 50 new_Device)))))) = Some 12 \<and>
   snd (setMode 3 (fst (connect
       (fake_transport [(guidServiceLedNetWf, 2)] [((2, guidCharacteristicLedNetWf), 12)])
       None None None (fst (setSpeed 20 (fst (setBrightness 50 new_Device))))))) =
     [WriteValueWithoutResponse 12 [0, 1, 0x80, 0, 0, 5, 6, 0x0B, 0x38, 3, 20, 50, 0]] \<and>
   deviceType (fst (connect
       (fake_transport [(guidServiceKeepsmile, 3)] [((3, guidCharacteristicKeepsmile), 13)])
       None None None (fst (setSpeed 20 (fst (setBrightness 50 new_Device)))))) = KEEP_SMILE \<and>
   characteristic (fst (connect
       (fake_transport [(guidServiceKeepsmile, 3)] [((3, guidCharacteristicKeepsmile), 13)])
       None None None (fst (setSpeed 20 (fst (setBrightness 50 new_Device)))))) = Some 13 \<and>
   snd (setMode 3 (fst (connect
       (fake_transport [(guidServiceKeepsmile, 3)] [((3, guidCharacteristicKeepsmile), 13)])
       None None None (fst (setSpeed 20 (fst (setBrightness 50 new_Device))))))) =
     [WriteValueWithoutResponse 13 [0x5C, 0x00, 131, 20, 50, 0x00, 0xC5]]"
proof -
  let ?b = "fake_transport [(guidServiceLedNetWf, 2)] [((2, guidCharacteristicLedNetWf), 12)]"
  let ?k = "fake_transport [(guidServiceKeepsmile, 3)] [((3, guidCharacteristicKeepsmile), 13)]"
  let ?d1 = "fst (setSpeed 20 (fst (setBrightness 50 new_Device)))"
  have u: "deviceType new_Device = UNKNOWN \<or> characteristic new_Device = None"
    by (simp add: new_Device_def)
  have d1: "?d1 = new_Device\<lparr>lastBrightness := 50, lastSpeed := 20\<rparr>"
    by (simp add: setSpeed_def setBrightness_def new_Device_def Let_def)
  have b: "deviceType (fst (connect ?b None None None ?d1)) = LED_NET_WF"
    "characteristic (fst (connect ?b None None None ?d1)) = Some 12"
    unfolding d1 by (simp_all add: connect_defs guid_defs new_Device_def)
  have k: "deviceType (fst (connect ?k None None None ?d1)) = KEEP_SMILE"
    "characteristic (fst (connect ?k None None None ?d1)) = Some 13"
    unfolding d1 by (simp_all add: connect_defs guid_defs new_Device_def)
  have c: "counter new_Device = 0" by (simp add: new_Device_def)
  note B = setters_overwrite_cache [of 3 new_Device 50 20 ?b None None None 12]
  note K = setters_overwrite_cache [of 3 new_Device 50 20 ?k None None None 13]
  from B u b have "snd (setMode 3 (fst (connect ?b None None None ?d1))) =
     [WriteValueWithoutResponse 12
        [word_of_int ((counter new_Device + 1) div 256), word_of_int (counter new_Device + 1),
         0x80, 0, 0, 5, 6, 0x0B, 0x38, ToUint8 3, ToUint8 20, ToUint8 50, 0]]"
    by blast
  then have 1: "snd (setMode 3 (fst (connect ?b None None None ?d1))) =
     [WriteValueWithoutResponse 12 [0, 1, 0x80, 0, 0, 5, 6, 0x0B, 0x38, 3, 20, 50, 0]]"
    unfolding c by (simp add: ToUint8_simps)
  from K u k have "snd (setMode 3 (fst (connect ?k None None None ?d1))) =
     [WriteValueWithoutResponse 13
        [0x5C, 0x00, ToUint8 (3 + 128), ToUint8 20, ToUint8 50, 0x00, 0xC5]]"
    by blast
  then have 2: "snd (setMode 3 (fst (connect ?k None None None ?d1))) =
     [WriteValueWithoutResponse 13 [0x5C, 0x00, 131, 20, 50, 0x00, 0xC5]]"
    by (simp add: ToUint8_simps)
  from B u have 3: "setBrightness 50 new_Device = (new_Device\<lparr>lastBrightness := 50\<rparr>, [])"
    by blast
  from u b k 1 2 3 show ?thesis by blast
qed

end
